theory Spec2Isabelle
  imports Main "HOL-Library.AList"
begin

section \<open>Data model of the chat processor\<close>

text \<open>
  The embedding follows \<^verbatim>\<open>source/game/StarChatProcessor.cpp\<close>. A connection
  identifier is an integer handle, a string is a list of characters, and the three tables of
  the processor (sessions, nickname index, channels) are association lists, so that they can
  be iterated as the source iterates them.
\<close>

type_synonym ConnectionId = nat
type_synonym String = string

definition ServerConnectionId :: ConnectionId where
  \<comment> \<open>Modelled from the spec: the constant is declared outside this file; it is the reserved
      sentinel identifier that denotes the server itself.\<close>
  "ServerConnectionId = 0"

definition ServerNick :: String where
  "ServerNick = ''server''"

text \<open>
  Modelled from the spec: the message context, the received message and the fields of the
  classes are declared outside this file. The spec lists the contexts (Broadcast, Channel
  with a name, Whisper, CommandResult) and the parts of a message (context, source
  identifier, source nickname, text); the fields of a session and of the processor are the
  ones this file reads and writes.
\<close>

datatype Mode = Channel | Broadcast | Whisper | CommandResult

record MessageContext =
  mode :: Mode
  channelName :: String

record ChatReceivedMessage =
  "context" :: MessageContext
  fromConnection :: ConnectionId
  fromNick :: String
  "text" :: String

record ClientInfo =
  clientId :: ConnectionId
  nick :: String
  pendingMessages :: "ChatReceivedMessage list"

type_synonym CommandHandler = "ConnectionId \<Rightarrow> String \<Rightarrow> String \<Rightarrow> String"

record ChatProcessor =
  m_clients :: "(ConnectionId \<times> ClientInfo) list"
  m_nicks :: "(String \<times> ConnectionId) list"
  m_channels :: "(String \<times> ConnectionId list) list"
  m_commandHandler :: "CommandHandler option"

definition emptyProcessor :: ChatProcessor where
  "emptyProcessor = \<lparr>m_clients = [], m_nicks = [], m_channels = [], m_commandHandler = None\<rparr>"

text \<open>
  The container operations throw in two situations. An operation that throws leaves the
  processor as it was at the throw, so a failure carries that state: the result of an
  operation is either the exception with the processor at the throw, or the returned value
  with the processor at the return.
\<close>

datatype MapException = KeyNotFound | KeyAlreadyPresent

type_synonym 'a result = "(MapException \<times> ChatProcessor) + ('a \<times> ChatProcessor)"

subsection \<open>Container operations\<close>

text \<open>
  Modelled from the spec: the map and set containers are declared outside this file. Looking
  up or taking a key that is absent is a precondition violation, adding a key that is present
  is one too, and indexing with \<^verbatim>\<open>[]\<close> creates a default entry where none exists.
\<close>

definition Map_contains :: "('k \<times> 'v) list \<Rightarrow> 'k \<Rightarrow> bool" where
  "Map_contains m k = (map_of m k \<noteq> None)"

definition Map_maybe :: "('k \<times> 'v) list \<Rightarrow> 'k \<Rightarrow> 'v option" where
  "Map_maybe m k = map_of m k"

definition Map_get :: "('k \<times> 'v) list \<Rightarrow> 'k \<Rightarrow> MapException + 'v" where
  "Map_get m k = (case map_of m k of None \<Rightarrow> Inl KeyNotFound | Some v \<Rightarrow> Inr v)"

definition Map_add :: "'k \<Rightarrow> 'v \<Rightarrow> ('k \<times> 'v) list \<Rightarrow> MapException + ('k \<times> 'v) list" where
  "Map_add k v m = (if Map_contains m k then Inl KeyAlreadyPresent else Inr (m @ [(k, v)]))"

definition Map_take :: "'k \<Rightarrow> ('k \<times> 'v) list \<Rightarrow> MapException + ('v \<times> ('k \<times> 'v) list)" where
  "Map_take k m = (case map_of m k of None \<Rightarrow> Inl KeyNotFound
                   | Some v \<Rightarrow> Inr (v, AList.delete k m))"

definition Map_remove :: "'k \<Rightarrow> ('k \<times> 'v) list \<Rightarrow> bool \<times> ('k \<times> 'v) list" where
  "Map_remove k m = (Map_contains m k, AList.delete k m)"

definition Map_set :: "'k \<Rightarrow> 'v \<Rightarrow> ('k \<times> 'v) list \<Rightarrow> ('k \<times> 'v) list" where
  \<comment> \<open>the assignment \<^verbatim>\<open>m[k] = v\<close>\<close>
  "Map_set k v m = AList.update k v m"

definition Map_index :: "'k \<Rightarrow> ('k \<times> 'v list) list \<Rightarrow> 'v list \<times> ('k \<times> 'v list) list" where
  \<comment> \<open>\<^verbatim>\<open>m[k]\<close>: the value referred to, and the map, in which the entry exists afterwards\<close>
  "Map_index k m = (case map_of m k of Some v \<Rightarrow> (v, m) | None \<Rightarrow> ([], m @ [(k, [])]))"

definition Set_add :: "'a \<Rightarrow> 'a list \<Rightarrow> bool \<times> 'a list" where
  "Set_add x xs = (if x \<in> set xs then (False, xs) else (True, xs @ [x]))"

definition Set_remove :: "'a \<Rightarrow> 'a list \<Rightarrow> bool \<times> 'a list" where
  "Set_remove x xs = (x \<in> set xs, removeAll x xs)"

subsection \<open>String operations\<close>

text \<open>
  Modelled from the spec: the string class is declared outside this file. A token is a
  maximal run of characters that are not whitespace; trimming removes whitespace at both
  ends; \<^verbatim>\<open>extract\<close> removes the first token and the whitespace around it from the
  string and returns the token.
\<close>

definition isSpace :: "char \<Rightarrow> bool" where
  "isSpace c = (c = CHR '' '' \<or> c = CHR 0x09 \<or> c = CHR 0x0A \<or> c = CHR 0x0D)"

definition beginsWith :: "String \<Rightarrow> String \<Rightarrow> bool" where
  "beginsWith s p = (take (length p) s = p)"

definition substr :: "String \<Rightarrow> nat \<Rightarrow> String" where
  "substr s pos = drop pos s"

definition substr_n :: "String \<Rightarrow> nat \<Rightarrow> nat \<Rightarrow> String" where
  "substr_n s pos n = take n (drop pos s)"

definition trim :: "String \<Rightarrow> String" where
  "trim s = rev (dropWhile isSpace (rev (dropWhile isSpace s)))"

definition String_extract :: "String \<Rightarrow> String \<times> String" where
  \<comment> \<open>the token returned, and the string as the call leaves it\<close>
  "String_extract s =
     (let s1 = dropWhile isSpace s in
      if s1 = [] then ([], s)
      else (takeWhile (\<lambda>c. \<not> isSpace c) s1,
            dropWhile isSpace (dropWhile (\<lambda>c. \<not> isSpace c) s1)))"

fun findAt :: "String \<Rightarrow> String \<Rightarrow> nat \<Rightarrow> nat option" where
  "findAt p [] i = (if p = [] then Some i else None)"
| "findAt p (c # cs) i = (if take (length p) (c # cs) = p then Some i else findAt p cs (Suc i))"

definition find_from :: "String \<Rightarrow> String \<Rightarrow> nat \<Rightarrow> nat option" where
  \<comment> \<open>\<^verbatim>\<open>s.find(p, pos)\<close>; \<^verbatim>\<open>npos\<close> is \<open>None\<close>\<close>
  "find_from s p pos = (if length s < pos then None else findAt p (drop pos s) pos)"

function decimal :: "nat \<Rightarrow> String" where
  \<comment> \<open>Modelled from the spec: the formatting function is declared outside this file; an
      identifier is printed in decimal digits.\<close>
  "decimal n = (if n < 10 then [''0123456789'' ! n]
                else decimal (n div 10) @ [''0123456789'' ! (n mod 10)])"
  by pat_completeness auto
termination
  by (relation "measure id") auto

declare decimal.simps [simp del]

section \<open>Session registry\<close>

subsection \<open>Nickname uniqueness\<close>

definition nickBound :: "ChatProcessor \<Rightarrow> nat" where
  \<comment> \<open>the length of the longest name that the loop below can collide with; it bounds the
      number of suffixes the loop appends\<close>
  "nickBound s = Max (length ` insert ServerNick (fst ` set (m_nicks s)))"

lemma nickBound_ge:
  "Map_contains (m_nicks s) n \<or> n = ServerNick \<Longrightarrow> length n \<le> nickBound s"
proof -
  assume a: "Map_contains (m_nicks s) n \<or> n = ServerNick"
  have "n \<in> insert ServerNick (fst ` set (m_nicks s))"
    using a by (auto simp: Map_contains_def dest: map_of_SomeD intro: rev_image_eqI)
  then show ?thesis
    unfolding nickBound_def by (intro Max_ge) auto
qed

function makeNickUnique :: "ChatProcessor \<Rightarrow> String \<Rightarrow> String" where
  "makeNickUnique s n =
     (if Map_contains (m_nicks s) n \<or> n = ServerNick then makeNickUnique s (n @ ''_'') else n)"
  by pat_completeness auto
termination
proof (relation "measure (\<lambda>(s, n). Suc (nickBound s) - length n)")
  show "wf (measure (\<lambda>(s, n). Suc (nickBound s) - length n))" by simp
next
  fix s :: ChatProcessor and n :: String
  assume "Map_contains (m_nicks s) n \<or> n = ServerNick"
  then have "length n \<le> nickBound s" by (rule nickBound_ge)
  then show "((s, n @ ''_''), (s, n)) \<in> measure (\<lambda>(s, n). Suc (nickBound s) - length n)"
    by simp
qed

declare makeNickUnique.simps [simp del]

subsection \<open>Connecting, disconnecting, renaming\<close>

definition appendPending :: "ChatReceivedMessage \<Rightarrow> ClientInfo \<Rightarrow> ClientInfo" where
  "appendPending msg ci = ci\<lparr>pendingMessages := pendingMessages ci @ [msg]\<rparr>"

definition appendAll ::
  "ChatReceivedMessage \<Rightarrow> (ConnectionId \<times> ClientInfo) list \<Rightarrow> (ConnectionId \<times> ClientInfo) list" where
  \<comment> \<open>the loop that appends one message to every session's queue\<close>
  "appendAll msg cs = map (\<lambda>(k, ci). (k, appendPending msg ci)) cs"

definition serverNotice :: "String \<Rightarrow> ChatReceivedMessage" where
  "serverNotice t =
     \<lparr>context = \<lparr>mode = Broadcast, channelName = []\<rparr>,
      fromConnection = ServerConnectionId, fromNick = ServerNick, text = t\<rparr>"

definition connectClient :: "ConnectionId \<Rightarrow> String \<Rightarrow> ChatProcessor \<Rightarrow> String result" where
  "connectClient cid requested s =
     (let n0 = (if requested = [] then ''Player_'' @ decimal cid else requested);
          n = makeNickUnique s n0;
          s1 = s\<lparr>m_clients :=
                 appendAll (serverNotice (''Player '' @ [CHR 0x27] @ n @ [CHR 0x27] @ '' connected''))
                   (m_clients s)\<rparr>
      in case Map_add cid \<lparr>clientId = cid, nick = n, pendingMessages = []\<rparr> (m_clients s1) of
           Inl e \<Rightarrow> Inl (e, s1)
         | Inr cs \<Rightarrow> Inr (n, s1\<lparr>m_clients := cs, m_nicks := Map_set n cid (m_nicks s1)\<rparr>))"

definition hasClient :: "ChatProcessor \<Rightarrow> ConnectionId \<Rightarrow> bool" where
  "hasClient s cid = Map_contains (m_clients s) cid"

definition findNick :: "ChatProcessor \<Rightarrow> String \<Rightarrow> ConnectionId option" where
  "findNick s n =
     (case Map_maybe (m_nicks s) n of
        Some c \<Rightarrow> Some c
      | None \<Rightarrow> if n = ServerNick then Some ServerConnectionId else None)"

definition connectionNick :: "ChatProcessor \<Rightarrow> ConnectionId \<Rightarrow> MapException + String" where
  "connectionNick s cid =
     (if cid = ServerConnectionId then Inr ServerNick
      else map_sum id nick (Map_get (m_clients s) cid))"

definition setNick :: "ConnectionId \<Rightarrow> String \<Rightarrow> ChatProcessor \<Rightarrow> ChatProcessor" where
  \<comment> \<open>assignment to the nickname field of a session that is present\<close>
  "setNick cid n s = s\<lparr>m_clients := AList.map_entry cid (\<lambda>ci. ci\<lparr>nick := n\<rparr>) (m_clients s)\<rparr>"

definition renick :: "ConnectionId \<Rightarrow> String \<Rightarrow> ChatProcessor \<Rightarrow> String result" where
  "renick cid n s =
     (case Map_get (m_clients s) cid of
        Inl e \<Rightarrow> Inl (e, s)
      | Inr clientInfo \<Rightarrow>
          (let s1 = s\<lparr>m_nicks := snd (Map_remove (nick clientInfo) (m_nicks s))\<rparr>;
               s2 = setNick cid (makeNickUnique s1 n) s1;
               s3 = setNick cid n s2;
               s4 = s3\<lparr>m_nicks := Map_set n cid (m_nicks s3)\<rparr>
           in Inr (n, s4)))"

definition pullPendingMessages ::
  "ConnectionId \<Rightarrow> ChatProcessor \<Rightarrow> ChatReceivedMessage list result" where
  "pullPendingMessages cid s =
     (if Map_contains (m_clients s) cid then
        (case Map_get (m_clients s) cid of
           Inl e \<Rightarrow> Inl (e, s)
         | Inr clientInfo \<Rightarrow>
             Inr (pendingMessages clientInfo,
                  s\<lparr>m_clients :=
                      AList.map_entry cid (\<lambda>ci. ci\<lparr>pendingMessages := []\<rparr>) (m_clients s)\<rparr>))
      else Inr ([], s))"

section \<open>Channel registry\<close>

definition joinChannel :: "ConnectionId \<Rightarrow> String \<Rightarrow> ChatProcessor \<Rightarrow> bool \<times> ChatProcessor" where
  "joinChannel cid ch s =
     (let (members, chs) = Map_index ch (m_channels s);
          (added, members') = Set_add cid members
      in (added, s\<lparr>m_channels := Map_set ch members' chs\<rparr>))"

definition leaveChannel :: "ConnectionId \<Rightarrow> String \<Rightarrow> ChatProcessor \<Rightarrow> bool \<times> ChatProcessor" where
  "leaveChannel cid ch s =
     (let (members, chs) = Map_index ch (m_channels s);
          (removed, members') = Set_remove cid members
      in (removed, s\<lparr>m_channels := Map_set ch members' chs\<rparr>))"

definition clientChannels :: "ChatProcessor \<Rightarrow> ConnectionId \<Rightarrow> String list" where
  "clientChannels s cid = map fst (filter (\<lambda>p. cid \<in> set (snd p)) (m_channels s))"

definition activeChannels :: "ChatProcessor \<Rightarrow> String list" where
  "activeChannels s = map fst (filter (\<lambda>p. snd p \<noteq> []) (m_channels s))"

definition leaveChannels :: "ConnectionId \<Rightarrow> String list \<Rightarrow> ChatProcessor \<Rightarrow> ChatProcessor" where
  \<comment> \<open>the loop of \<^verbatim>\<open>disconnectClient\<close> that leaves each channel of a list in turn\<close>
  "leaveChannels cid channels s =
     fold (\<lambda>channel st. snd (leaveChannel cid channel st)) channels s"

definition disconnectClient ::
  "ConnectionId \<Rightarrow> ChatProcessor \<Rightarrow> ChatReceivedMessage list result" where
  "disconnectClient cid s =
     (let s1 = leaveChannels cid (clientChannels s cid) s
      in case Map_take cid (m_clients s1) of
           Inl e \<Rightarrow> Inl (e, s1)
         | Inr (clientInfo, cs) \<Rightarrow>
             (let s2 = s1\<lparr>m_clients := cs\<rparr>;
                  s3 = s2\<lparr>m_nicks := snd (Map_remove (nick clientInfo) (m_nicks s2))\<rparr>;
                  s4 = s3\<lparr>m_clients :=
                          appendAll
                            (serverNotice
                               (''Player '' @ [CHR 0x27] @ nick clientInfo @ [CHR 0x27]
                                  @ '' disconnected''))
                            (m_clients s3)\<rparr>
              in Inr (pendingMessages clientInfo, s4)))"

section \<open>Command interpreter and router\<close>

definition appendTo :: "ConnectionId \<Rightarrow> ChatReceivedMessage \<Rightarrow> ChatProcessor \<Rightarrow> unit result" where
  \<comment> \<open>\<^verbatim>\<open>m_clients.get(cid).pendingMessages.append(msg)\<close>\<close>
  "appendTo cid msg s =
     (case Map_get (m_clients s) cid of
        Inl e \<Rightarrow> Inl (e, s)
      | Inr _ \<Rightarrow> Inr ((), s\<lparr>m_clients := AList.map_entry cid (appendPending msg) (m_clients s)\<rparr>))"

definition whisperArguments :: "String \<Rightarrow> String \<times> String" where
  \<comment> \<open>the target and the message content that the \<^verbatim>\<open>w\<close> branch of
      \<^verbatim>\<open>handleCommand\<close> takes from the command line\<close>
  "whisperArguments commandLine =
     (if beginsWith commandLine [CHR 0x22] then
        (case find_from commandLine [CHR 0x22] 1 of
           Some endQuoteIndex \<Rightarrow>
             (substr_n commandLine 1 (endQuoteIndex - 1),
              trim (substr commandLine (endQuoteIndex + 1)))
         | None \<Rightarrow> ([], []))
      else (let (target, rest) = String_extract commandLine in (target, trim rest)))"

lemma length_trim: "length (trim s) \<le> length s"
proof -
  have "length (trim s) \<le> length (dropWhile isSpace s)"
    unfolding trim_def using length_dropWhile_le [of isSpace "rev (dropWhile isSpace s)"] by simp
  also have "\<dots> \<le> length s" by (rule length_dropWhile_le)
  finally show ?thesis .
qed

lemma length_String_extract: "length (snd (String_extract s)) \<le> length s"
proof -
  have "length (dropWhile isSpace (dropWhile (\<lambda>c. \<not> isSpace c) (dropWhile isSpace s)))
          \<le> length (dropWhile (\<lambda>c. \<not> isSpace c) (dropWhile isSpace s))"
    by (rule length_dropWhile_le)
  also have "\<dots> \<le> length (dropWhile isSpace s)" by (rule length_dropWhile_le)
  also have "\<dots> \<le> length s" by (rule length_dropWhile_le)
  finally show ?thesis by (simp add: String_extract_def Let_def)
qed

lemma length_whisperArguments: "length (snd (whisperArguments s)) \<le> length s"
proof (cases "beginsWith s [CHR 0x22]")
  case True
  show ?thesis
  proof (cases "find_from s [CHR 0x22] 1")
    case None
    with True show ?thesis by (simp add: whisperArguments_def)
  next
    case (Some e)
    have "length (trim (substr s (e + 1))) \<le> length (substr s (e + 1))" by (rule length_trim)
    also have "\<dots> \<le> length s" by (simp add: substr_def)
    finally show ?thesis using True Some by (simp add: whisperArguments_def)
  qed
next
  case False
  have "length (trim (snd (String_extract s))) \<le> length (snd (String_extract s))"
    by (rule length_trim)
  also have "\<dots> \<le> length s" by (rule length_String_extract)
  finally show ?thesis using False by (simp add: whisperArguments_def split_beta Let_def)
qed

lemma length_command_content:
  assumes "beginsWith t ''/''"
  shows "length (snd (whisperArguments (snd (String_extract (substr t 1))))) < length t"
proof -
  from assms have "t \<noteq> []" by (auto simp: beginsWith_def)
  then have "length (substr t 1) < length t" by (simp add: substr_def)
  moreover have "length (snd (whisperArguments (snd (String_extract (substr t 1)))))
                   \<le> length (snd (String_extract (substr t 1)))"
    by (rule length_whisperArguments)
  moreover have "length (snd (String_extract (substr t 1))) \<le> length (substr t 1)"
    by (rule length_String_extract)
  ultimately show ?thesis by linarith
qed

function whisper :: "ConnectionId \<Rightarrow> ConnectionId \<Rightarrow> String \<Rightarrow> ChatProcessor \<Rightarrow> unit result"
  and handleCommand ::
    "ChatReceivedMessage \<Rightarrow> ChatProcessor \<Rightarrow> (bool \<times> ChatReceivedMessage) result"
where
  "whisper sourceConnectionId targetClientId txt s =
     (case connectionNick s sourceConnectionId of
        Inl e \<Rightarrow> Inl (e, s)
      | Inr n \<Rightarrow>
          (case handleCommand
                  \<lparr>context = \<lparr>mode = Whisper, channelName = []\<rparr>,
                   fromConnection = sourceConnectionId, fromNick = n, text = txt\<rparr> s of
             Inl es \<Rightarrow> Inl es
           | Inr (r, s1) \<Rightarrow>
               if fst r then Inr ((), s1)
               else (case (if sourceConnectionId \<noteq> ServerConnectionId
                           then appendTo sourceConnectionId (snd r) s1 else Inr ((), s1)) of
                       Inl es \<Rightarrow> Inl es
                     | Inr (u, s2) \<Rightarrow> appendTo targetClientId (snd r) s2)))"
| "handleCommand message s =
     (if \<not> beginsWith (text message) ''/'' then Inr ((False, message), s)
      else if beginsWith (text message) ''//''
      then Inr ((False, message\<lparr>text := substr (text message) 1\<rparr>), s)
      else
        (case
           (if fst (String_extract (substr (text message) 1)) = ''nick'' then
              (case renick (fromConnection message)
                      (trim (snd (String_extract (substr (text message) 1)))) s of
                 Inl es \<Rightarrow> Inl es
               | Inr (newNick, s1) \<Rightarrow> Inr (''Nick changed to '' @ newNick, s1))
            else if fst (String_extract (substr (text message) 1)) = ''w'' then
              (if Map_contains (m_nicks s)
                    (fst (whisperArguments (snd (String_extract (substr (text message) 1)))))
               then
                 (case Map_get (m_nicks s)
                         (fst (whisperArguments (snd (String_extract (substr (text message) 1))))) of
                    Inl e \<Rightarrow> Inl (e, s)
                  | Inr target \<Rightarrow>
                      (case whisper (fromConnection message) target
                              (snd (whisperArguments
                                      (snd (String_extract (substr (text message) 1))))) s of
                         Inl es \<Rightarrow> Inl es
                       | Inr (u, s1) \<Rightarrow> Inr ([], s1)))
               else Inr (''No such nick ''
                           @ fst (whisperArguments
                                    (snd (String_extract (substr (text message) 1)))), s))
            else
              (case m_commandHandler s of
                 Some handler \<Rightarrow>
                   Inr (handler (fromConnection message)
                          (fst (String_extract (substr (text message) 1)))
                          (snd (String_extract (substr (text message) 1))), s)
               | None \<Rightarrow>
                   Inr (''No such command '' @ fst (String_extract (substr (text message) 1)), s)))
         of
           Inl es \<Rightarrow> Inl es
         | Inr (response, s1) \<Rightarrow>
             if response \<noteq> [] then
               (case appendTo (fromConnection message)
                       \<lparr>context = \<lparr>mode = CommandResult, channelName = []\<rparr>,
                        fromConnection = ServerConnectionId, fromNick = ServerNick,
                        text = response\<rparr> s1 of
                  Inl es \<Rightarrow> Inl es
                | Inr (u, s2) \<Rightarrow> Inr ((True, message), s2))
             else Inr ((True, message), s1)))"
  by pat_completeness auto
termination
  by (relation "measure (\<lambda>x. case x of
           Inl (src, tgt, body, s) \<Rightarrow> 2 * length body + 2
         | Inr (msg, s) \<Rightarrow> 2 * length (text msg) + 1)")
     (auto dest: length_command_content)

declare whisper.simps [simp del]
declare handleCommand.simps [simp del]

definition broadcast :: "ConnectionId \<Rightarrow> String \<Rightarrow> ChatProcessor \<Rightarrow> unit result" where
  "broadcast sourceConnectionId txt s =
     (case connectionNick s sourceConnectionId of
        Inl e \<Rightarrow> Inl (e, s)
      | Inr n \<Rightarrow>
          (case handleCommand
                  \<lparr>context = \<lparr>mode = Broadcast, channelName = []\<rparr>,
                   fromConnection = sourceConnectionId, fromNick = n, text = txt\<rparr> s of
             Inl es \<Rightarrow> Inl es
           | Inr (r, s1) \<Rightarrow>
               if fst r then Inr ((), s1)
               else Inr ((), s1\<lparr>m_clients := appendAll (snd r) (m_clients s1)\<rparr>)))"

fun deliver :: "ConnectionId list \<Rightarrow> ChatReceivedMessage \<Rightarrow> ChatProcessor \<Rightarrow> unit result" where
  "deliver [] msg s = Inr ((), s)"
| "deliver (cid # cids) msg s =
     (case appendTo cid msg s of
        Inl es \<Rightarrow> Inl es
      | Inr (u, s1) \<Rightarrow> deliver cids msg s1)"

definition message ::
  "ConnectionId \<Rightarrow> Mode \<Rightarrow> String \<Rightarrow> String \<Rightarrow> ChatProcessor \<Rightarrow> unit result" where
  "message sourceConnectionId md channel txt s =
     (case connectionNick s sourceConnectionId of
        Inl e \<Rightarrow> Inl (e, s)
      | Inr n \<Rightarrow>
          (case handleCommand
                  \<lparr>context = \<lparr>mode = md, channelName = channel\<rparr>,
                   fromConnection = sourceConnectionId, fromNick = n, text = txt\<rparr> s of
             Inl es \<Rightarrow> Inl es
           | Inr (r, s1) \<Rightarrow>
               if fst r then Inr ((), s1)
               else (let (members, chs) = Map_index channel (m_channels s1)
                     in deliver members (snd r) (s1\<lparr>m_channels := chs\<rparr>))))"

definition adminBroadcast :: "String \<Rightarrow> ChatProcessor \<Rightarrow> unit result" where
  "adminBroadcast txt s = broadcast ServerConnectionId txt s"

definition adminMessage :: "Mode \<Rightarrow> String \<Rightarrow> String \<Rightarrow> ChatProcessor \<Rightarrow> unit result" where
  "adminMessage md channel txt s = message ServerConnectionId md channel txt s"

definition adminWhisper :: "ConnectionId \<Rightarrow> String \<Rightarrow> ChatProcessor \<Rightarrow> unit result" where
  "adminWhisper targetClientId txt s = whisper ServerConnectionId targetClientId txt s"

definition setCommandHandler :: "CommandHandler \<Rightarrow> ChatProcessor \<Rightarrow> ChatProcessor" where
  "setCommandHandler h s = s\<lparr>m_commandHandler := Some h\<rparr>"

definition clearCommandHandler :: "ChatProcessor \<Rightarrow> ChatProcessor" where
  "clearCommandHandler s = s\<lparr>m_commandHandler := None\<rparr>"

section \<open>Observations used by the properties\<close>

definition stateOf :: "'a result \<Rightarrow> ChatProcessor" where
  \<comment> \<open>the processor after an operation, whether it returned or threw\<close>
  "stateOf r = (case r of Inl (e, s) \<Rightarrow> s | Inr (x, s) \<Rightarrow> s)"

definition valueOf :: "'a result \<Rightarrow> 'a option" where
  \<comment> \<open>the value an operation returned, if it returned\<close>
  "valueOf r = (case r of Inl (e, s) \<Rightarrow> None | Inr (x, s) \<Rightarrow> Some x)"

definition nickOf :: "ChatProcessor \<Rightarrow> ConnectionId \<Rightarrow> String option" where
  "nickOf s cid = map_option nick (map_of (m_clients s) cid)"

definition queueOf :: "ChatProcessor \<Rightarrow> ConnectionId \<Rightarrow> ChatReceivedMessage list option" where
  "queueOf s cid = map_option pendingMessages (map_of (m_clients s) cid)"

definition nicknamesUnique :: "ChatProcessor \<Rightarrow> bool" where
  \<comment> \<open>no two sessions share a nickname and none holds the reserved one\<close>
  "nicknamesUnique s =
     (distinct (map (\<lambda>p. nick (snd p)) (m_clients s))
      \<and> ServerNick \<notin> set (map (\<lambda>p. nick (snd p)) (m_clients s)))"

definition channelRecords :: "ChatProcessor \<Rightarrow> String set" where
  "channelRecords s = fst ` set (m_channels s)"

definition withoutMember ::
  "ConnectionId \<Rightarrow> (String \<times> ConnectionId list) list \<Rightarrow> (String \<times> ConnectionId list) list" where
  \<comment> \<open>the channel table with one identifier removed from every member set\<close>
  "withoutMember cid chs = map (\<lambda>p. (fst p, removeAll cid (snd p))) chs"

text \<open>
  Sequences of calls of the public operations, to speak of what has happened to a processor
  at some point: each call is performed on the processor the previous one left, whether it
  returned or threw.
\<close>

datatype operation =
    Connect ConnectionId String
  | Disconnect ConnectionId
  | Rename ConnectionId String
  | Join ConnectionId String
  | Leave ConnectionId String
  | SendBroadcast ConnectionId String
  | SendChannel ConnectionId Mode String String
  | SendWhisper ConnectionId ConnectionId String
  | Drain ConnectionId

fun perform :: "operation \<Rightarrow> ChatProcessor \<Rightarrow> ChatProcessor" where
  "perform (Connect c n) s = stateOf (connectClient c n s)"
| "perform (Disconnect c) s = stateOf (disconnectClient c s)"
| "perform (Rename c n) s = stateOf (renick c n s)"
| "perform (Join c ch) s = snd (joinChannel c ch s)"
| "perform (Leave c ch) s = snd (leaveChannel c ch s)"
| "perform (SendBroadcast c t) s = stateOf (broadcast c t s)"
| "perform (SendChannel c md ch t) s = stateOf (message c md ch t s)"
| "perform (SendWhisper c d t) s = stateOf (whisper c d t s)"
| "perform (Drain c) s = stateOf (pullPendingMessages c s)"

definition performAll :: "operation list \<Rightarrow> ChatProcessor \<Rightarrow> ChatProcessor" where
  "performAll ops s = fold perform ops s"


definition noSuchNick :: "String \<Rightarrow> ChatReceivedMessage" where
  \<comment> \<open>the reply of the \<^verbatim>\<open>w\<close> command for a target that is not in the index\<close>
  "noSuchNick target =
     \<lparr>context = \<lparr>mode = CommandResult, channelName = []\<rparr>,
      fromConnection = ServerConnectionId, fromNick = ServerNick,
      text = ''No such nick '' @ target\<rparr>"

definition whisperFrom :: "ConnectionId \<Rightarrow> String \<Rightarrow> String \<Rightarrow> ChatReceivedMessage" where
  \<comment> \<open>the message that \<^verbatim>\<open>whisper\<close> builds\<close>
  "whisperFrom src n body =
     \<lparr>context = \<lparr>mode = Whisper, channelName = []\<rparr>,
      fromConnection = src, fromNick = n, text = body\<rparr>"

definition connectedNotice :: "String \<Rightarrow> ChatReceivedMessage" where
  "connectedNotice n = serverNotice (''Player '' @ [CHR 0x27] @ n @ [CHR 0x27] @ '' connected'')"

definition disconnectedNotice :: "String \<Rightarrow> ChatReceivedMessage" where
  "disconnectedNotice n =
     serverNotice (''Player '' @ [CHR 0x27] @ n @ [CHR 0x27] @ '' disconnected'')"

definition aliceAndBob :: ChatProcessor where
  \<comment> \<open>two sessions connected to the empty processor\<close>
  "aliceAndBob =
     stateOf (connectClient 2 ''Bob'' (stateOf (connectClient 1 ''Alice'' emptyProcessor)))"

definition inChannels :: ChatProcessor where
  \<comment> \<open>the two sessions, in two channels\<close>
  "inChannels =
     snd (joinChannel 2 ''lobby'' (snd (joinChannel 1 ''lobby'' (snd (joinChannel 1 ''solo'' aliceAndBob)))))"

definition emptyTaken :: ChatProcessor where
  \<comment> \<open>the two sessions after session 1 took the empty nickname\<close>
  "emptyTaken = stateOf (renick 1 [] aliceAndBob)"

definition alice :: ClientInfo where
  "alice = \<lparr>clientId = 1, nick = ''Alice'', pendingMessages = [connectedNotice ''Bob'']\<rparr>"

definition bob :: ClientInfo where
  "bob = \<lparr>clientId = 2, nick = ''Bob'', pendingMessages = []\<rparr>"

definition said :: "String \<Rightarrow> ChatReceivedMessage" where
  \<comment> \<open>a text as session 1 of the example sends it\<close>
  "said t = \<lparr>context = \<lparr>mode = Broadcast, channelName = []\<rparr>,
             fromConnection = 1, fromNick = ''Alice'', text = t\<rparr>"

lemmas evals =
  connectClient_def renick_def Map_add_def Map_contains_def Map_set_def Map_get_def
  Map_remove_def Map_take_def Map_index_def Map_maybe_def Set_add_def Set_remove_def
  setNick_def appendAll_def appendPending_def appendTo_def serverNotice_def makeNickUnique.simps
  ServerNick_def ServerConnectionId_def emptyProcessor_def Let_def stateOf_def valueOf_def
  nickOf_def queueOf_def connectionNick_def broadcast_def handleCommand.simps whisper.simps
  beginsWith_def substr_def substr_n_def trim_def String_extract_def isSpace_def find_from_def
  whisperArguments_def joinChannel_def leaveChannel_def clientChannels_def activeChannels_def
  disconnectClient_def leaveChannels_def withoutMember_def pullPendingMessages_def message_def nicknamesUnique_def
  channelRecords_def connectedNotice_def disconnectedNotice_def hasClient_def

lemma aliceAndBob_eq:
  "aliceAndBob =
     \<lparr>m_clients =
        [(1, \<lparr>clientId = 1, nick = ''Alice'', pendingMessages = [connectedNotice ''Bob'']\<rparr>),
         (2, \<lparr>clientId = 2, nick = ''Bob'', pendingMessages = []\<rparr>)],
      m_nicks = [(''Alice'', 1), (''Bob'', 2)], m_channels = [], m_commandHandler = None\<rparr>"
  by (simp add: aliceAndBob_def evals)

section \<open>Auxiliary facts\<close>

lemma connectedNotice_record:
  "connectedNotice n =
     \<lparr>context = \<lparr>mode = Broadcast, channelName = []\<rparr>,
      fromConnection = ServerConnectionId, fromNick = ServerNick,
      text = ''Player '' @ [CHR 0x27] @ n @ [CHR 0x27] @ '' connected''\<rparr>"
  by (simp add: connectedNotice_def serverNotice_def)

lemma disconnectedNotice_record:
  "disconnectedNotice n =
     \<lparr>context = \<lparr>mode = Broadcast, channelName = []\<rparr>,
      fromConnection = ServerConnectionId, fromNick = ServerNick,
      text = ''Player '' @ [CHR 0x27] @ n @ [CHR 0x27] @ '' disconnected''\<rparr>"
  by (simp add: disconnectedNotice_def serverNotice_def)

lemma connectedNotice_literal:
  "connectedNotice n =
     \<lparr>context = \<lparr>mode = Broadcast, channelName = []\<rparr>,
      fromConnection = 0, fromNick = ''server'',
      text = ''Player '' @ [CHR 0x27] @ n @ [CHR 0x27] @ '' connected''\<rparr>"
  by (simp add: connectedNotice_record ServerConnectionId_def ServerNick_def)

lemma disconnectedNotice_literal:
  "disconnectedNotice n =
     \<lparr>context = \<lparr>mode = Broadcast, channelName = []\<rparr>,
      fromConnection = 0, fromNick = ''server'',
      text = ''Player '' @ [CHR 0x27] @ n @ [CHR 0x27] @ '' disconnected''\<rparr>"
  by (simp add: disconnectedNotice_record ServerConnectionId_def ServerNick_def)

lemma alice_connected: "map_of (m_clients aliceAndBob) 1 = Some alice"
  by (simp add: aliceAndBob_eq alice_def)

lemma map_of_appendAll:
  "map_of (appendAll msg cs) c = map_option (appendPending msg) (map_of cs c)"
  by (induction cs) (auto simp: appendAll_def)

lemma keys_appendAll: "map fst (appendAll msg cs) = map fst cs"
  by (induction cs) (auto simp: appendAll_def)

lemma makeNickUnique_suffix: "\<exists>k. makeNickUnique s n = n @ replicate k (CHR ''_'')"
proof (induction s n rule: makeNickUnique.induct)
  case (1 s n)
  show ?case
  proof (cases "Map_contains (m_nicks s) n \<or> n = ServerNick")
    case True
    with 1 obtain k where "makeNickUnique s (n @ ''_'') = (n @ ''_'') @ replicate k (CHR ''_'')"
      by blast
    then have "makeNickUnique s n = n @ replicate (Suc k) (CHR ''_'')"
      using True by (subst makeNickUnique.simps) simp
    then show ?thesis by blast
  next
    case False
    then have "makeNickUnique s n = n @ replicate 0 (CHR ''_'')"
      by (subst makeNickUnique.simps) simp
    then show ?thesis by blast
  qed
qed

lemma makeNickUnique_fresh:
  "\<not> Map_contains (m_nicks s) (makeNickUnique s n) \<and> makeNickUnique s n \<noteq> ServerNick"
proof (induction s n rule: makeNickUnique.induct)
  case (1 s n)
  show ?case
  proof (cases "Map_contains (m_nicks s) n \<or> n = ServerNick")
    case True
    then have "makeNickUnique s n = makeNickUnique s (n @ ''_'')"
      by (subst makeNickUnique.simps) simp
    with 1 True show ?thesis by simp
  next
    case False
    then have "makeNickUnique s n = n" by (subst makeNickUnique.simps) simp
    with False show ?thesis by simp
  qed
qed

lemma makeNickUnique_free:
  "\<not> Map_contains (m_nicks s) n \<Longrightarrow> n \<noteq> ServerNick \<Longrightarrow> makeNickUnique s n = n"
  by (subst makeNickUnique.simps) simp

lemma stateOf_Inr [simp]: "stateOf (Inr (x, s)) = s" by (simp add: stateOf_def)
lemma stateOf_Inl [simp]: "stateOf (Inl (e, s)) = s" by (simp add: stateOf_def)
lemma valueOf_Inr [simp]: "valueOf (Inr (x, s)) = Some x" by (simp add: valueOf_def)
lemma valueOf_Inl [simp]: "valueOf (Inl (e, s)) = None" by (simp add: valueOf_def)

lemma map_of_entry_same:
  "map_of xs k = Some v \<Longrightarrow> map_of (AList.map_entry k f xs) k = Some (f v)"
  by (simp add: map_of_map_entry)

lemma map_of_entry_other:
  "k' \<noteq> k \<Longrightarrow> map_of (AList.map_entry k f xs) k' = map_of xs k'"
  by (simp add: map_of_map_entry)


lemma pull_connected:
  assumes "map_of (m_clients s) cid = Some ci"
  shows "pullPendingMessages cid s =
        Inr (pendingMessages ci,
             s\<lparr>m_clients := AList.map_entry cid (\<lambda>c. c\<lparr>pendingMessages := []\<rparr>) (m_clients s)\<rparr>)"
  using assms by (simp add: pullPendingMessages_def Map_contains_def Map_get_def)

lemma pull_absent:
  assumes "map_of (m_clients s) cid = None"
  shows "pullPendingMessages cid s = Inr ([], s)"
  using assms by (simp add: pullPendingMessages_def Map_contains_def)

lemma appendTo_connected:
  assumes "map_of (m_clients s) cid = Some ci"
  shows "appendTo cid m s = Inr ((), s\<lparr>m_clients := AList.map_entry cid (appendPending m) (m_clients s)\<rparr>)"
  using assms by (simp add: appendTo_def Map_get_def)

lemma map_entry_nick_twice:
  "AList.map_entry cid (\<lambda>c. c\<lparr>nick := y\<rparr>) (AList.map_entry cid (\<lambda>c. c\<lparr>nick := x\<rparr>) xs)
     = AList.map_entry cid (\<lambda>c. c\<lparr>nick := y\<rparr>) xs"
  by (induction xs) auto

lemma renick_connected:
  assumes "map_of (m_clients s) cid = Some ci"
  shows "renick cid n s =
           Inr (n, s\<lparr>m_clients := AList.map_entry cid (\<lambda>c. c\<lparr>nick := n\<rparr>) (m_clients s),
                     m_nicks := AList.update n cid (AList.delete (nick ci) (m_nicks s))\<rparr>)"
  using assms
  by (simp add: renick_def Map_get_def Map_remove_def Map_set_def setNick_def Let_def
        map_entry_nick_twice)


lemma connectClient_fresh:
  assumes "map_of (m_clients s) cid = None"
  shows "connectClient cid requested s =
     Inr (makeNickUnique s (if requested = [] then ''Player_'' @ decimal cid else requested),
          s\<lparr>m_clients :=
               appendAll (connectedNotice
                   (makeNickUnique s (if requested = [] then ''Player_'' @ decimal cid else requested)))
                 (m_clients s)
               @ [(cid, \<lparr>clientId = cid,
                        nick = makeNickUnique s
                                 (if requested = [] then ''Player_'' @ decimal cid else requested),
                        pendingMessages = []\<rparr>)],
             m_nicks := AList.update
                 (makeNickUnique s (if requested = [] then ''Player_'' @ decimal cid else requested))
                 cid (m_nicks s)\<rparr>)"
  using assms
  by (simp add: connectClient_def Let_def Map_add_def Map_contains_def Map_set_def
        map_of_appendAll connectedNotice_def)

lemma connectClient_present:
  assumes "map_of (m_clients s) cid = Some ci"
  shows "connectClient cid requested s =
     Inl (KeyAlreadyPresent,
          s\<lparr>m_clients :=
               appendAll (connectedNotice
                   (makeNickUnique s (if requested = [] then ''Player_'' @ decimal cid else requested)))
                 (m_clients s)\<rparr>)"
  using assms
  by (simp add: connectClient_def Let_def Map_add_def Map_contains_def Map_set_def
        map_of_appendAll connectedNotice_def)

lemma connectionNick_server: "connectionNick s ServerConnectionId = Inr ServerNick"
  by (simp add: connectionNick_def)

lemma connectionNick_connected:
  "map_of (m_clients s) cid = Some ci \<Longrightarrow> cid \<noteq> ServerConnectionId \<Longrightarrow>
     connectionNick s cid = Inr (nick ci)"
  by (simp add: connectionNick_def Map_get_def)

lemma connectionNick_absent:
  "map_of (m_clients s) cid = None \<Longrightarrow> cid \<noteq> ServerConnectionId \<Longrightarrow>
     connectionNick s cid = Inl KeyNotFound"
  by (simp add: connectionNick_def Map_get_def)

lemma handleCommand_plain:
  "\<not> beginsWith (text msg) ''/'' \<Longrightarrow> handleCommand msg s = Inr ((False, msg), s)"
  by (subst handleCommand.simps) simp

lemma handleCommand_escaped:
  "beginsWith (text msg) ''//'' \<Longrightarrow>
     handleCommand msg s = Inr ((False, msg\<lparr>text := substr (text msg) 1\<rparr>), s)"
proof -
  assume a: "beginsWith (text msg) ''//''"
  then have "beginsWith (text msg) ''/''"
    by (cases "text msg") (auto simp: beginsWith_def)
  with a show ?thesis by (subst handleCommand.simps) simp
qed

lemma map_of_snoc_same:
  "map_of xs k = None \<Longrightarrow> map_of (xs @ [(k, v)]) k = Some v"
  by (induction xs) auto

lemma map_of_snoc_other:
  "k' \<noteq> k \<Longrightarrow> map_of (xs @ [(k, v)]) k' = map_of xs k'"
  by (induction xs) auto

lemma queueOf_appendAll:
  "queueOf (s\<lparr>m_clients := appendAll msg (m_clients s)\<rparr>) c
     = map_option (\<lambda>q. q @ [msg]) (queueOf s c)"
  by (cases "map_of (m_clients s) c") (simp_all add: queueOf_def map_of_appendAll appendPending_def)

lemma broadcast_not_consumed:
  assumes "connectionNick s src = Inr n"
    and "handleCommand \<lparr>context = \<lparr>mode = Broadcast, channelName = []\<rparr>,
                        fromConnection = src, fromNick = n, text = t\<rparr> s = Inr ((False, msg), s)"
  shows "broadcast src t s = Inr ((), s\<lparr>m_clients := appendAll msg (m_clients s)\<rparr>)"
  using assms by (simp add: broadcast_def)


lemma inChannels_eq:
  "inChannels = aliceAndBob\<lparr>m_channels := [(''solo'', [1]), (''lobby'', [1, 2])]\<rparr>"
  by (simp add: inChannels_def aliceAndBob_eq joinChannel_def Map_index_def Set_add_def Map_set_def)

lemma alice_inChannels: "map_of (m_clients inChannels) 1 = Some alice"
  using alice_connected by (simp add: inChannels_eq)

lemma distinct_inChannels: "distinct (map fst (m_channels inChannels))"
  by (simp add: inChannels_eq)

lemma update_distinct:
  "distinct (map fst xs) \<Longrightarrow> map_of xs k = Some v \<Longrightarrow>
     AList.update k w xs = map (\<lambda>p. if fst p = k then (fst p, w) else p) xs"
proof (induction xs)
  case Nil
  then show ?case by simp
next
  case (Cons x xs)
  obtain a b where x: "x = (a, b)" by (cases x)
  show ?case
  proof (cases "a = k")
    case True
    with Cons.prems x have "k \<notin> fst ` set xs" by auto
    then have "map (\<lambda>p. if fst p = k then (fst p, w) else p) xs = xs"
      by (induction xs) auto
    with True x show ?thesis by simp
  next
    case False
    with Cons x show ?thesis by simp
  qed
qed

lemma leaveChannel_existing:
  assumes "distinct (map fst (m_channels s))" and "map_of (m_channels s) ch = Some ms"
  shows "snd (leaveChannel cid ch s) =
           s\<lparr>m_channels := map (\<lambda>p. if fst p = ch then (fst p, removeAll cid ms) else p) (m_channels s)\<rparr>"
  using assms
  by (simp add: leaveChannel_def Map_index_def Set_remove_def Map_set_def update_distinct)

lemma leaveChannel_existing':
  assumes "distinct (map fst (m_channels s))" and "ch \<in> fst ` set (m_channels s)"
  shows "snd (leaveChannel cid ch s) =
           s\<lparr>m_channels :=
               map (\<lambda>p. if fst p = ch then (fst p, removeAll cid (snd p)) else p) (m_channels s)\<rparr>"
proof -
  from assms(2) obtain ms where ms: "map_of (m_channels s) ch = Some ms"
    by (metis domD dom_map_of_conv_image_fst)
  have "map (\<lambda>p. if fst p = ch then (fst p, removeAll cid ms) else p) (m_channels s)
      = map (\<lambda>p. if fst p = ch then (fst p, removeAll cid (snd p)) else p) (m_channels s)"
  proof (rule map_cong [OF refl])
    fix p assume p: "p \<in> set (m_channels s)"
    show "(if fst p = ch then (fst p, removeAll cid ms) else p)
        = (if fst p = ch then (fst p, removeAll cid (snd p)) else p)"
    proof (cases "fst p = ch")
      case True
      with p have "(ch, snd p) \<in> set (m_channels s)" by (metis prod.collapse)
      with assms(1) have "map_of (m_channels s) ch = Some (snd p)" by simp
      with ms have "snd p = ms" by simp
      with True show ?thesis by simp
    next
      case False
      then show ?thesis by simp
    qed
  qed
  with leaveChannel_existing [OF assms(1) ms, of cid] show ?thesis by simp
qed

lemma leaveChannels_existing:
  "distinct (map fst (m_channels s)) \<Longrightarrow> set ns \<subseteq> fst ` set (m_channels s) \<Longrightarrow>
     leaveChannels cid ns s =
       s\<lparr>m_channels :=
           map (\<lambda>p. if fst p \<in> set ns then (fst p, removeAll cid (snd p)) else p) (m_channels s)\<rparr>"
proof (induction ns arbitrary: s)
  case Nil
  then show ?case by (simp add: leaveChannels_def)
next
  case (Cons n ns)
  let ?s1 = "s\<lparr>m_channels :=
               map (\<lambda>p. if fst p = n then (fst p, removeAll cid (snd p)) else p) (m_channels s)\<rparr>"
  have one: "snd (leaveChannel cid n s) = ?s1"
    using Cons.prems by (intro leaveChannel_existing') auto
  have keys: "map fst (m_channels ?s1) = map fst (m_channels s)"
    by (simp add: comp_def if_distrib cong: if_cong)
  have d1: "distinct (map fst (m_channels ?s1))" using Cons.prems(1) by (simp only: keys)
  have sub1: "set ns \<subseteq> fst ` set (m_channels ?s1)"
    using Cons.prems(2) keys by (metis list.set_map set_subset_Cons subset_trans)
  have "leaveChannels cid (n # ns) s = leaveChannels cid ns ?s1"
    by (simp add: leaveChannels_def one)
  also have "\<dots> = ?s1\<lparr>m_channels :=
           map (\<lambda>p. if fst p \<in> set ns then (fst p, removeAll cid (snd p)) else p) (m_channels ?s1)\<rparr>"
    using d1 sub1 by (rule Cons.IH)
  also have "\<dots> = s\<lparr>m_channels :=
           map (\<lambda>p. if fst p \<in> set (n # ns) then (fst p, removeAll cid (snd p)) else p) (m_channels s)\<rparr>"
    by (simp add: comp_def) 
  finally show ?case .
qed

lemma leaveChannels_clientChannels:
  assumes "distinct (map fst (m_channels s))"
  shows "leaveChannels cid (clientChannels s cid) s = s\<lparr>m_channels := withoutMember cid (m_channels s)\<rparr>"
proof -
  have sub: "set (clientChannels s cid) \<subseteq> fst ` set (m_channels s)"
    by (auto simp: clientChannels_def)
  have "map (\<lambda>p. if fst p \<in> set (clientChannels s cid) then (fst p, removeAll cid (snd p)) else p)
          (m_channels s) = withoutMember cid (m_channels s)"
    unfolding withoutMember_def
  proof (rule map_cong [OF refl])
    fix p assume p: "p \<in> set (m_channels s)"
    show "(if fst p \<in> set (clientChannels s cid) then (fst p, removeAll cid (snd p)) else p)
            = (fst p, removeAll cid (snd p))"
    proof (cases "cid \<in> set (snd p)")
      case True
      with p have "fst p \<in> set (clientChannels s cid)" by (auto simp: clientChannels_def)
      then show ?thesis by simp
    next
      case False
      then have "removeAll cid (snd p) = snd p" by simp
      then show ?thesis by simp
    qed
  qed
  with leaveChannels_existing [OF assms sub, of cid] show ?thesis by simp
qed

lemma leaveChannel_keeps_sessions:
  "m_clients (snd (leaveChannel cid ch s)) = m_clients s
   \<and> m_nicks (snd (leaveChannel cid ch s)) = m_nicks s
   \<and> m_commandHandler (snd (leaveChannel cid ch s)) = m_commandHandler s"
  by (simp add: leaveChannel_def Let_def split_beta)

lemma leaveChannels_keeps_sessions:
  "m_clients (leaveChannels cid ns s) = m_clients s
   \<and> m_nicks (leaveChannels cid ns s) = m_nicks s
   \<and> m_commandHandler (leaveChannels cid ns s) = m_commandHandler s"
proof (induction ns arbitrary: s)
  case Nil
  then show ?case by (simp add: leaveChannels_def)
next
  case (Cons n ns)
  have "leaveChannels cid (n # ns) s = leaveChannels cid ns (snd (leaveChannel cid n s))"
    by (simp add: leaveChannels_def)
  with Cons [of "snd (leaveChannel cid n s)"] leaveChannel_keeps_sessions [of cid n s]
  show ?case by simp
qed

lemma disconnectClient_absent:
  assumes "map_of (m_clients s) cid = None"
  shows "disconnectClient cid s = Inl (KeyNotFound, leaveChannels cid (clientChannels s cid) s)"
  using assms leaveChannels_keeps_sessions [of cid "clientChannels s cid" s]
  by (simp add: disconnectClient_def Let_def Map_take_def)

lemma disconnectClient_present:
  assumes "map_of (m_clients s) cid = Some ci" and "distinct (map fst (m_channels s))"
  shows "disconnectClient cid s =
           Inr (pendingMessages ci,
                s\<lparr>m_channels := withoutMember cid (m_channels s),
                   m_clients := appendAll (disconnectedNotice (nick ci))
                                  (AList.delete cid (m_clients s)),
                   m_nicks := AList.delete (nick ci) (m_nicks s)\<rparr>)"
  using assms
  by (simp add: disconnectClient_def leaveChannels_clientChannels Let_def Map_take_def
        Map_remove_def disconnectedNotice_def)

lemma clientChannels_withoutMember:
  "m_channels s' = withoutMember cid chs \<Longrightarrow> clientChannels s' cid = []"
  by (simp add: clientChannels_def withoutMember_def filter_map comp_def)

lemma activeChannels_withoutMember:
  assumes "m_channels s' = withoutMember cid chs"
  shows "activeChannels s' = map fst (filter (\<lambda>p. \<not> set (snd p) \<subseteq> {cid}) chs)"
proof -
  have "(removeAll cid ms \<noteq> []) = (\<not> set ms \<subseteq> {cid})" for ms
    by (induction ms) auto
  then show ?thesis
    using assms by (simp add: activeChannels_def withoutMember_def filter_map comp_def)
qed

lemma map_of_withoutMember:
  "map_of (withoutMember cid chs) ch = map_option (removeAll cid) (map_of chs ch)"
  by (induction chs) (auto simp: withoutMember_def)

lemma disconnectClient_after:
  assumes "map_of (m_clients s) cid = Some ci" and "distinct (map fst (m_channels s))"
  shows "map_of (m_clients (stateOf (disconnectClient cid s))) cid = None"
    and "clientChannels (stateOf (disconnectClient cid s)) cid = []"
proof -
  note r = disconnectClient_present [OF assms]
  show "map_of (m_clients (stateOf (disconnectClient cid s))) cid = None"
    by (simp add: r map_of_appendAll delete_conv)
  have "m_channels (stateOf (disconnectClient cid s)) = withoutMember cid (m_channels s)"
    by (simp add: r)
  then show "clientChannels (stateOf (disconnectClient cid s)) cid = []"
    by (rule clientChannels_withoutMember)
qed

lemma keeps_bind:
  assumes "m_channels (stateOf x) = c"
    and "\<And>v s1. x = Inr (v, s1) \<Longrightarrow> m_channels (stateOf (f (v, s1))) = m_channels s1"
  shows "m_channels (stateOf (case x of Inl es \<Rightarrow> Inl es | Inr p \<Rightarrow> f p)) = c"
proof (cases x)
  case (Inl es)
  obtain e s' where "es = (e, s')" by (cases es)
  with Inl assms(1) show ?thesis by simp
next
  case (Inr p)
  obtain v s1 where p: "p = (v, s1)" by (cases p)
  from assms(1) Inr p have "m_channels s1 = c" by simp
  with assms(2) [of v s1] Inr p show ?thesis by simp
qed

lemma appendTo_channels: "m_channels (stateOf (appendTo c m s)) = m_channels s"
  by (simp add: appendTo_def split: sum.splits)

lemma renick_channels: "m_channels (stateOf (renick c n s)) = m_channels s"
  by (simp add: renick_def setNick_def Let_def split: sum.splits)

lemma router_channels:
  "m_channels (stateOf (whisper a b t s)) = m_channels s"
  "m_channels (stateOf (handleCommand m s)) = m_channels s"
proof (induction a b t s and m s rule: whisper_handleCommand.induct)
  case (1 src tgt body s)
  show ?case
  proof (cases "connectionNick s src")
    case (Inl e)
    then show ?thesis by (subst whisper.simps) simp
  next
    case (Inr n)
    have "m_channels (stateOf
            (case handleCommand
                  \<lparr>context = \<lparr>mode = Whisper, channelName = []\<rparr>,
                   fromConnection = src, fromNick = n, text = body\<rparr> s of
             Inl es \<Rightarrow> Inl es
           | Inr (r, s1) \<Rightarrow>
               if fst r then Inr ((), s1)
               else (case (if src \<noteq> ServerConnectionId
                           then appendTo src (snd r) s1 else Inr ((), s1)) of
                       Inl es \<Rightarrow> Inl es
                     | Inr (u, s2) \<Rightarrow> appendTo tgt (snd r) s2))) = m_channels s"
    proof (rule keeps_bind)
      show "m_channels (stateOf (handleCommand
                  \<lparr>context = \<lparr>mode = Whisper, channelName = []\<rparr>,
                   fromConnection = src, fromNick = n, text = body\<rparr> s)) = m_channels s"
        using Inr by (rule 1)
    next
      fix r :: "bool \<times> ChatReceivedMessage" and s1 :: ChatProcessor
      have "m_channels (stateOf
              (case (if src \<noteq> ServerConnectionId
                           then appendTo src (snd r) s1 else Inr ((), s1)) of
                       Inl es \<Rightarrow> Inl es
                     | Inr (u, s2) \<Rightarrow> appendTo tgt (snd r) s2)) = m_channels s1"
        by (rule keeps_bind) (simp_all add: appendTo_channels)
      then show "m_channels (stateOf
              (case (r, s1) of (r, s1) \<Rightarrow>
               if fst r then Inr ((), s1)
               else (case (if src \<noteq> ServerConnectionId
                           then appendTo src (snd r) s1 else Inr ((), s1)) of
                       Inl es \<Rightarrow> Inl es
                     | Inr (u, s2) \<Rightarrow> appendTo tgt (snd r) s2))) = m_channels s1"
        by simp
    qed
    with Inr show ?thesis by (subst whisper.simps) simp
  qed
next
  case (2 message s)
  let ?cl = "String_extract (substr (text message) 1)"
  let ?dispatch = "(if fst ?cl = ''nick'' then
              (case renick (fromConnection message) (trim (snd ?cl)) s of
                 Inl es \<Rightarrow> Inl es
               | Inr (newNick, s1) \<Rightarrow> Inr (''Nick changed to '' @ newNick, s1))
            else if fst ?cl = ''w'' then
              (if Map_contains (m_nicks s) (fst (whisperArguments (snd ?cl)))
               then
                 (case Map_get (m_nicks s) (fst (whisperArguments (snd ?cl))) of
                    Inl e \<Rightarrow> Inl (e, s)
                  | Inr target \<Rightarrow>
                      (case whisper (fromConnection message) target
                              (snd (whisperArguments (snd ?cl))) s of
                         Inl es \<Rightarrow> Inl es
                       | Inr (u, s1) \<Rightarrow> Inr ([], s1)))
               else Inr (''No such nick '' @ fst (whisperArguments (snd ?cl)), s))
            else
              (case m_commandHandler s of
                 Some handler \<Rightarrow>
                   Inr (handler (fromConnection message) (fst ?cl) (snd ?cl), s)
               | None \<Rightarrow> Inr (''No such command '' @ fst ?cl, s)))"
  show ?case
  proof (cases "beginsWith (text message) ''/'' \<and> \<not> beginsWith (text message) ''//''")
    case False
    then show ?thesis by (subst handleCommand.simps) auto
  next
    case True
    have d: "m_channels (stateOf ?dispatch) = m_channels s"
    proof (cases "fst ?cl = ''nick''")
      case nick: True
      have "m_channels (stateOf (case renick (fromConnection message) (trim (snd ?cl)) s of
                 Inl es \<Rightarrow> Inl es
               | Inr (newNick, s1) \<Rightarrow> Inr (''Nick changed to '' @ newNick, s1))) = m_channels s"
        by (rule keeps_bind) (simp_all add: renick_channels)
      with nick show ?thesis by simp
    next
      case notnick: False
      show ?thesis
      proof (cases "fst ?cl = ''w''")
        case w: True
        show ?thesis
        proof (cases "Map_get (m_nicks s) (fst (whisperArguments (snd ?cl)))")
          case (Inl e)
          with notnick w show ?thesis by simp
        next
          case (Inr target)
          show ?thesis
          proof (cases "Map_contains (m_nicks s) (fst (whisperArguments (snd ?cl)))")
            case c: True
            have ih: "m_channels (stateOf (whisper (fromConnection message) target
                              (snd (whisperArguments (snd ?cl))) s)) = m_channels s"
              using True notnick w c Inr by (intro 2) simp_all
            have "m_channels (stateOf (case whisper (fromConnection message) target
                              (snd (whisperArguments (snd ?cl))) s of
                         Inl es \<Rightarrow> Inl es
                       | Inr (u, s1) \<Rightarrow> Inr ([], s1))) = m_channels s"
              using ih by (rule keeps_bind) simp
            with notnick w c Inr show ?thesis by simp
          next
            case False
            with notnick w show ?thesis by simp
          qed
        qed
      next
        case False
        with notnick show ?thesis by (simp split: option.splits)
      qed
    qed
    have "m_channels (stateOf (case ?dispatch of
           Inl es \<Rightarrow> Inl es
         | Inr (response, s1) \<Rightarrow>
             if response \<noteq> [] then
               (case appendTo (fromConnection message)
                       \<lparr>context = \<lparr>mode = CommandResult, channelName = []\<rparr>,
                        fromConnection = ServerConnectionId, fromNick = ServerNick,
                        text = response\<rparr> s1 of
                  Inl es \<Rightarrow> Inl es
                | Inr (u, s2) \<Rightarrow> Inr ((True, message), s2))
             else Inr ((True, message), s1))) = m_channels s"
      using d
    proof (rule keeps_bind)
      fix response :: String and s1 :: ChatProcessor
      have "m_channels (stateOf (case appendTo (fromConnection message)
                       \<lparr>context = \<lparr>mode = CommandResult, channelName = []\<rparr>,
                        fromConnection = ServerConnectionId, fromNick = ServerNick,
                        text = response\<rparr> s1 of
                  Inl es \<Rightarrow> Inl es
                | Inr (u, s2) \<Rightarrow> Inr ((True, message), s2))) = m_channels s1"
        by (rule keeps_bind) (simp_all add: appendTo_channels)
      then show "m_channels (stateOf (case (response, s1) of (response, s1) \<Rightarrow>
             if response \<noteq> [] then
               (case appendTo (fromConnection message)
                       \<lparr>context = \<lparr>mode = CommandResult, channelName = []\<rparr>,
                        fromConnection = ServerConnectionId, fromNick = ServerNick,
                        text = response\<rparr> s1 of
                  Inl es \<Rightarrow> Inl es
                | Inr (u, s2) \<Rightarrow> Inr ((True, message), s2))
             else Inr ((True, message), s1))) = m_channels s1"
        by simp
    qed
    with True show ?thesis by (subst handleCommand.simps) simp
  qed
qed









lemma connectClient_channels: "m_channels (stateOf (connectClient c n s)) = m_channels s"
  by (simp add: connectClient_def Let_def split: sum.splits)

lemma pullPendingMessages_channels: "m_channels (stateOf (pullPendingMessages c s)) = m_channels s"
  by (simp add: pullPendingMessages_def split: sum.splits)

lemma broadcast_channels: "m_channels (stateOf (broadcast c t s)) = m_channels s"
proof (cases "connectionNick s c")
  case (Inl e)
  then show ?thesis by (simp add: broadcast_def)
next
  case (Inr n)
  have "m_channels (stateOf
          (case handleCommand
                  \<lparr>context = \<lparr>mode = Broadcast, channelName = []\<rparr>,
                   fromConnection = c, fromNick = n, text = t\<rparr> s of
             Inl es \<Rightarrow> Inl es
           | Inr (r, s1) \<Rightarrow>
               if fst r then Inr ((), s1)
               else Inr ((), s1\<lparr>m_clients := appendAll (snd r) (m_clients s1)\<rparr>))) = m_channels s"
    by (rule keeps_bind) (simp_all add: router_channels)
  with Inr show ?thesis by (simp add: broadcast_def)
qed

lemma deliver_channels: "m_channels (stateOf (deliver cs msg s)) = m_channels s"
proof (induction cs arbitrary: s)
  case Nil
  then show ?case by simp
next
  case (Cons c cs)
  have "m_channels (stateOf (case appendTo c msg s of
        Inl es \<Rightarrow> Inl es
      | Inr (u, s1) \<Rightarrow> deliver cs msg s1)) = m_channels s"
    by (rule keeps_bind) (simp_all add: appendTo_channels Cons)
  then show ?case by simp
qed

lemma handleCommand_consumed:
  assumes "beginsWith (text m) ''/''" and "\<not> beginsWith (text m) ''//''"
    and "handleCommand m s = Inr (r, s1)"
  shows "r = (True, m)"
  using assms(3)
  by (subst (asm) handleCommand.simps)
     (simp add: assms(1,2) split: sum.splits prod.splits if_splits)

lemma message_not_consumed:
  assumes "connectionNick s src = Inr n"
    and "handleCommand \<lparr>context = \<lparr>mode = md, channelName = ch\<rparr>,
                        fromConnection = src, fromNick = n, text = t\<rparr> s = Inr ((False, msg), s)"
  shows "message src md ch t s
           = deliver (fst (Map_index ch (m_channels s))) msg
               (s\<lparr>m_channels := snd (Map_index ch (m_channels s))\<rparr>)"
  using assms by (simp add: message_def split_beta)


lemma message_records_consumed:
  assumes "beginsWith t ''/''" and "\<not> beginsWith t ''//''"
  shows "m_channels (stateOf (message src md ch t s)) = m_channels s"
proof (cases "connectionNick s src")
  case (Inl e)
  then show ?thesis by (simp add: message_def)
next
  case (Inr n)
  let ?m = "\<lparr>context = \<lparr>mode = md, channelName = ch\<rparr>,
             fromConnection = src, fromNick = n, text = t\<rparr>"
  show ?thesis
  proof (cases "handleCommand ?m s")
    case (Inl es)
    obtain e s' where es: "es = (e, s')" by (cases es)
    from router_channels(2) [of ?m s] Inl es have "m_channels s' = m_channels s" by simp
    with Inr Inl es show ?thesis by (simp add: message_def)
  next
    case hc: (Inr p)
    obtain r s1 where p: "p = (r, s1)" by (cases p)
    from hc p assms have "r = (True, ?m)"
      by (intro handleCommand_consumed [of ?m s r s1]) simp_all
    moreover from router_channels(2) [of ?m s] hc p have "m_channels s1 = m_channels s" by simp
    ultimately show ?thesis using Inr hc p by (simp add: message_def)
  qed
qed



lemma performAll_Cons: "performAll (op # ops) s = performAll ops (perform op s)"
  by (simp add: performAll_def)




lemma findAt_char:
  "q \<notin> set tgt \<Longrightarrow> findAt [q] (tgt @ q # rest) i = Some (i + length tgt)"
  by (induction tgt arbitrary: i) auto

lemma whisperArguments_quoted:
  assumes "CHR 0x22 \<notin> set tgt"
  shows "whisperArguments ([CHR 0x22] @ tgt @ [CHR 0x22] @ rest) = (tgt, trim rest)"
proof -
  have f: "find_from (CHR 0x22 # tgt @ CHR 0x22 # rest) [CHR 0x22] (Suc 0)
             = Some (Suc (length tgt))"
    using findAt_char [OF assms, of rest 1] by (simp add: find_from_def)
  show ?thesis
    by (simp add: whisperArguments_def beginsWith_def f substr_n_def substr_def)
qed

lemma String_extract_token:
  assumes "tgt \<noteq> []" and "\<forall>c \<in> set tgt. \<not> isSpace c" and "isSpace sp"
  shows "String_extract (tgt @ sp # rest) = (tgt, dropWhile isSpace rest)"
proof -
  from assms(1,2) have h: "\<not> isSpace (hd tgt)" by simp
  from assms(1) h have d: "dropWhile isSpace (tgt @ sp # rest) = tgt @ sp # rest"
    by (cases tgt) simp_all
  have t: "takeWhile (\<lambda>c. \<not> isSpace c) (tgt @ sp # rest) = tgt"
    using assms(2,3) by (simp add: takeWhile_tail)
  have r: "dropWhile (\<lambda>c. \<not> isSpace c) (tgt @ sp # rest) = sp # rest"
    using assms(2,3) by (simp add: dropWhile_append3)
  show ?thesis
    using assms(1,3) by (simp add: String_extract_def d t r)
qed

lemma String_extract_only:
  assumes "tgt \<noteq> []" and "\<forall>c \<in> set tgt. \<not> isSpace c"
  shows "String_extract tgt = (tgt, [])"
proof -
  from assms(1,2) have h: "\<not> isSpace (hd tgt)" by simp
  from assms(1) h have d: "dropWhile isSpace tgt = tgt"
    by (cases tgt) simp_all
  have t: "takeWhile (\<lambda>c. \<not> isSpace c) tgt = tgt"
    using assms(2) by (simp add: takeWhile_eq_all_conv)
  have r: "dropWhile (\<lambda>c. \<not> isSpace c) tgt = []"
    using assms(2) by (simp add: dropWhile_eq_Nil_conv)
  show ?thesis
    using assms(1) by (simp add: String_extract_def d t r)
qed

lemma trim_dropWhile: "trim (dropWhile isSpace s) = trim s"
  by (simp add: trim_def dropWhile_idem)

lemma whisperArguments_plain:
  assumes "tgt \<noteq> []" and "\<forall>c \<in> set tgt. \<not> isSpace c" and "hd tgt \<noteq> CHR 0x22" and "isSpace sp"
  shows "whisperArguments (tgt @ sp # rest) = (tgt, trim rest)"
proof -
  from assms(1,3) have b: "\<not> beginsWith (tgt @ sp # rest) [CHR 0x22]"
    by (cases tgt) (simp_all add: beginsWith_def)
  show ?thesis
    using b String_extract_token [OF assms(1,2,4), of rest]
    by (simp add: whisperArguments_def trim_dropWhile)
qed

lemma command_w:
  assumes "isSpace sp"
  shows "String_extract (substr (''/w'' @ sp # rest) 1) = (''w'', dropWhile isSpace rest)"
  using String_extract_token [of "''w''" sp rest] assms
  by (simp add: substr_def isSpace_def)

lemma handleCommand_w_unknown:
  assumes "beginsWith (text m) ''/''" and "\<not> beginsWith (text m) ''//''"
    and "String_extract (substr (text m) 1) = (''w'', commandLine)"
    and "whisperArguments commandLine = (target, content)"
    and "map_of (m_nicks s) target = None"
    and "map_of (m_clients s) (fromConnection m) = Some cx"
  shows "handleCommand m s =
           Inr ((True, m),
                s\<lparr>m_clients := AList.map_entry (fromConnection m)
                                 (appendPending (noSuchNick target)) (m_clients s)\<rparr>)"
  using assms
  by (subst handleCommand.simps)
     (simp add: Map_contains_def appendTo_def Map_get_def noSuchNick_def)

lemma handleCommand_w_known:
  assumes "beginsWith (text m) ''/''" and "\<not> beginsWith (text m) ''//''"
    and "String_extract (substr (text m) 1) = (''w'', commandLine)"
    and "whisperArguments commandLine = (target, content)"
    and "map_of (m_nicks s) target = Some y"
    and "whisper (fromConnection m) y content s = Inr ((), s1)"
  shows "handleCommand m s = Inr ((True, m), s1)"
  using assms
  by (subst handleCommand.simps) (simp add: Map_contains_def Map_get_def)

lemma whisper_delivered:
  assumes "connectionNick s x = Inr n" and "\<not> beginsWith body ''/''"
    and "map_of (m_clients s) y = Some cy"
    and "x = ServerConnectionId \<or> map_of (m_clients s) x = Some cx"
  shows "whisper x y body s =
           Inr ((), s\<lparr>m_clients :=
                        AList.map_entry y (appendPending (whisperFrom x n body))
                          (if x \<noteq> ServerConnectionId
                           then AList.map_entry x (appendPending (whisperFrom x n body)) (m_clients s)
                           else m_clients s)\<rparr>)"
proof -
  let ?w = "whisperFrom x n body"
  have hc: "handleCommand ?w s = Inr ((False, ?w), s)"
    using assms(2) by (intro handleCommand_plain) (simp add: whisperFrom_def)
  show ?thesis
  proof (cases "x = ServerConnectionId")
    case True
    have "appendTo y ?w s = Inr ((), s\<lparr>m_clients := AList.map_entry y (appendPending ?w) (m_clients s)\<rparr>)"
      using assms(3) by (rule appendTo_connected)
    with True assms(1) hc show ?thesis
      by (subst whisper.simps) (simp add: whisperFrom_def)
  next
    case False
    with assms(4) have cx: "map_of (m_clients s) x = Some cx" by simp
    let ?s1 = "s\<lparr>m_clients := AList.map_entry x (appendPending ?w) (m_clients s)\<rparr>"
    have a1: "appendTo x ?w s = Inr ((), ?s1)" using cx by (rule appendTo_connected)
    have "\<exists>cy'. map_of (m_clients ?s1) y = Some cy'"
      using assms(3) by (cases "y = x") (simp_all add: map_of_map_entry)
    then obtain cy' where "map_of (m_clients ?s1) y = Some cy'" ..
    then have a2: "appendTo y ?w ?s1
                = Inr ((), ?s1\<lparr>m_clients := AList.map_entry y (appendPending ?w) (m_clients ?s1)\<rparr>)"
      by (rule appendTo_connected)
    from False assms(1) hc a1 a2 show ?thesis
      by (subst whisper.simps) (simp add: whisperFrom_def)
  qed
qed

lemma distinct_Map_index:
  "distinct (map fst m) \<Longrightarrow> distinct (map fst (snd (Map_index k m)))"
  by (auto simp: Map_index_def map_of_eq_None_iff split: option.splits)

lemma joinChannel_distinct:
  "distinct (map fst (m_channels s)) \<Longrightarrow> distinct (map fst (m_channels (snd (joinChannel c ch s))))"
  using distinct_Map_index [of "m_channels s" ch]
  by (simp add: joinChannel_def Map_set_def split_beta Let_def distinct_update)

lemma leaveChannel_distinct:
  "distinct (map fst (m_channels s)) \<Longrightarrow> distinct (map fst (m_channels (snd (leaveChannel c ch s))))"
  using distinct_Map_index [of "m_channels s" ch]
  by (simp add: leaveChannel_def Map_set_def split_beta Let_def distinct_update)

lemma leaveChannels_distinct:
  "distinct (map fst (m_channels s)) \<Longrightarrow> distinct (map fst (m_channels (leaveChannels c ns s)))"
proof (induction ns arbitrary: s)
  case Nil
  then show ?case by (simp add: leaveChannels_def)
next
  case (Cons n ns)
  have "leaveChannels c (n # ns) s = leaveChannels c ns (snd (leaveChannel c n s))"
    by (simp add: leaveChannels_def)
  with Cons.IH [of "snd (leaveChannel c n s)"] leaveChannel_distinct [OF Cons.prems, of c n]
  show ?case by simp
qed

lemma disconnectClient_distinct:
  assumes "distinct (map fst (m_channels s))"
  shows "distinct (map fst (m_channels (stateOf (disconnectClient c s))))"
  using leaveChannels_distinct [OF assms, of c "clientChannels s c"]
  by (simp add: disconnectClient_def Let_def split: sum.splits)

lemma message_channels_cases:
  "m_channels (stateOf (message src md ch t s)) = m_channels s
   \<or> m_channels (stateOf (message src md ch t s)) = snd (Map_index ch (m_channels s))"
proof (cases "beginsWith t ''/'' \<and> \<not> beginsWith t ''//''")
  case True
  then have "m_channels (stateOf (message src md ch t s)) = m_channels s"
    by (intro message_records_consumed) simp_all
  then show ?thesis by simp
next
  case False
  show ?thesis
  proof (cases "connectionNick s src")
    case (Inl e)
    then show ?thesis by (simp add: message_def)
  next
    case (Inr n)
    let ?m = "\<lparr>context = \<lparr>mode = md, channelName = ch\<rparr>,
               fromConnection = src, fromNick = n, text = t\<rparr>"
    have "\<exists>msg. handleCommand ?m s = Inr ((False, msg), s)"
    proof (cases "beginsWith t ''//''")
      case True
      then show ?thesis using handleCommand_escaped [of ?m s] by simp
    next
      case nb: False
      with False show ?thesis using handleCommand_plain [of ?m s] by simp
    qed
    then obtain msg where "handleCommand ?m s = Inr ((False, msg), s)" ..
    with Inr have "message src md ch t s
           = deliver (fst (Map_index ch (m_channels s))) msg
               (s\<lparr>m_channels := snd (Map_index ch (m_channels s))\<rparr>)"
      by (rule message_not_consumed)
    then show ?thesis by (simp add: deliver_channels)
  qed
qed

lemma perform_distinct:
  assumes "distinct (map fst (m_channels s))"
  shows "distinct (map fst (m_channels (perform op s)))"
proof (cases op)
  case (SendChannel c md ch t)
  with message_channels_cases [of c md ch t s] assms distinct_Map_index [OF assms, of ch]
  show ?thesis by auto
qed (simp_all add: assms connectClient_channels disconnectClient_distinct renick_channels
       joinChannel_distinct leaveChannel_distinct broadcast_channels router_channels
       pullPendingMessages_channels)

lemma performAll_distinct:
  "distinct (map fst (m_channels s)) \<Longrightarrow> distinct (map fst (m_channels (performAll ops s)))"
proof (induction ops arbitrary: s)
  case Nil
  then show ?case by (simp add: performAll_def)
next
  case (Cons op ops)
  from Cons.IH [OF perform_distinct [OF Cons.prems, of op]] show ?case
    by (simp only: performAll_Cons)
qed

lemma reachable_distinct: "distinct (map fst (m_channels (performAll ops emptyProcessor)))"
  by (rule performAll_distinct) (simp add: emptyProcessor_def)

section \<open>Renaming\<close>

text \<open>
  C1. Rename removes the old nickname mapping and resolves the requested name for
  uniqueness, but the resolved name is then overwritten: with sessions 1 (Alice) and 2 (Bob)
  connected, renaming session 2 to Alice returns and stores the requested name Alice, in the
  session and in the nickname index, although the uniqueness resolution of that name in the
  same state yields the suffixed name.
\<close>

theorem renick_stores_requested_name:
  "valueOf (renick 2 ''Alice'' aliceAndBob) = Some ''Alice''
   \<and> nickOf (stateOf (renick 2 ''Alice'' aliceAndBob)) 2 = Some ''Alice''
   \<and> map_of (m_nicks (stateOf (renick 2 ''Alice'' aliceAndBob))) ''Alice'' = Some 2
   \<and> map_of (m_nicks (stateOf (renick 2 ''Alice'' aliceAndBob))) ''Bob'' = None
   \<and> makeNickUnique (aliceAndBob\<lparr>m_nicks := snd (Map_remove ''Bob'' (m_nicks aliceAndBob))\<rparr>)
         ''Alice'' = ''Alice_''"
  by (simp add: aliceAndBob_eq evals)

text \<open>
  C2. The nickname invariant (no two sessions share a nickname, none holds the reserved
  server nickname) holds after the two Connect calls, and is broken by a Rename, called
  directly or through the nick command: two sessions then hold the same nickname, or a
  session holds the reserved one.
\<close>

theorem renick_breaks_nickname_invariant:
  "nicknamesUnique aliceAndBob
   \<and> \<not> nicknamesUnique (stateOf (renick 2 ''Alice'' aliceAndBob))
   \<and> \<not> nicknamesUnique (stateOf (renick 1 ''server'' aliceAndBob))
   \<and> \<not> nicknamesUnique (stateOf (broadcast 2 ''/nick Alice'' aliceAndBob))
   \<and> nickOf (stateOf (renick 2 ''Alice'' aliceAndBob)) 1 = Some ''Alice''
   \<and> nickOf (stateOf (renick 2 ''Alice'' aliceAndBob)) 2 = Some ''Alice''
   \<and> nickOf (stateOf (renick 1 ''server'' aliceAndBob)) 1 = Some ServerNick"
  by (simp add: aliceAndBob_eq evals)

section \<open>Broadcast\<close>

text \<open>
  C6. For a source that is a connected session or the server identifier, and a text that
  the command interpreter does not consume (it does not begin with the prefix character, or
  it begins with two of them), Broadcast returns and appends exactly one Broadcast message,
  stamped with the sender's identifier and nickname, to the queue of every connected
  session, the sender's included; of a text beginning with two prefix characters exactly the
  first is stripped. These are the only texts the interpreter does not consume. Appending to
  all keeps the set of sessions and adds the message once at the end of each queue.
\<close>

theorem broadcast_delivers_to_all:
  assumes "src = ServerConnectionId \<or> map_of (m_clients s) src = Some ci"
    and "n = (if src = ServerConnectionId then ServerNick else nick ci)"
  shows "(\<not> beginsWith t ''/'' \<longrightarrow>
            broadcast src t s =
              Inr ((), s\<lparr>m_clients :=
                           appendAll \<lparr>context = \<lparr>mode = Broadcast, channelName = []\<rparr>,
                                      fromConnection = src, fromNick = n, text = t\<rparr>
                             (m_clients s)\<rparr>))
       \<and> broadcast src (''//'' @ rest) s =
              Inr ((), s\<lparr>m_clients :=
                           appendAll \<lparr>context = \<lparr>mode = Broadcast, channelName = []\<rparr>,
                                      fromConnection = src, fromNick = n, text = ''/'' @ rest\<rparr>
                             (m_clients s)\<rparr>)
       \<and> (handleCommand \<lparr>context = \<lparr>mode = Broadcast, channelName = []\<rparr>,
                           fromConnection = src, fromNick = n, text = t\<rparr> s
              = Inr ((False, m'), s') \<longrightarrow>
            \<not> beginsWith t ''/'' \<or> beginsWith t ''//'')
       \<and> (\<forall>msg c. queueOf (s\<lparr>m_clients := appendAll msg (m_clients s)\<rparr>) c
                      = map_option (\<lambda>q. q @ [msg]) (queueOf s c))
       \<and> (\<forall>msg. map fst (appendAll msg (m_clients s)) = map fst (m_clients s))"
proof (intro conjI impI allI)
  have nick: "connectionNick s src = Inr n"
    using assms by (auto simp: connectionNick_server connectionNick_connected)
  {
    assume r: "handleCommand \<lparr>context = \<lparr>mode = Broadcast, channelName = []\<rparr>,
                              fromConnection = src, fromNick = n, text = t\<rparr> s
                 = Inr ((False, m'), s')"
    show "\<not> beginsWith t ''/'' \<or> beginsWith t ''//''"
    proof (rule ccontr)
      assume "\<not> (\<not> beginsWith t ''/'' \<or> beginsWith t ''//'')"
      then have "beginsWith t ''/''" and "\<not> beginsWith t ''//''" by simp_all
      then have "(False, m') = (True, \<lparr>context = \<lparr>mode = Broadcast, channelName = []\<rparr>,
                                         fromConnection = src, fromNick = n, text = t\<rparr>)"
        using r by (intro handleCommand_consumed [where s = s and ?s1.0 = s']) simp_all
      then show False by simp
    qed
  }
  {
    assume "\<not> beginsWith t ''/''"
    then have "handleCommand \<lparr>context = \<lparr>mode = Broadcast, channelName = []\<rparr>,
                        fromConnection = src, fromNick = n, text = t\<rparr> s
               = Inr ((False, \<lparr>context = \<lparr>mode = Broadcast, channelName = []\<rparr>,
                        fromConnection = src, fromNick = n, text = t\<rparr>), s)"
      by (intro handleCommand_plain) simp
    with nick show "broadcast src t s =
              Inr ((), s\<lparr>m_clients :=
                           appendAll \<lparr>context = \<lparr>mode = Broadcast, channelName = []\<rparr>,
                                      fromConnection = src, fromNick = n, text = t\<rparr>
                             (m_clients s)\<rparr>)"
      by (rule broadcast_not_consumed)
  }
  have "handleCommand \<lparr>context = \<lparr>mode = Broadcast, channelName = []\<rparr>,
                        fromConnection = src, fromNick = n, text = ''//'' @ rest\<rparr> s
               = Inr ((False, \<lparr>context = \<lparr>mode = Broadcast, channelName = []\<rparr>,
                        fromConnection = src, fromNick = n, text = ''//'' @ rest\<rparr>
                          \<lparr>text := substr (text \<lparr>context = \<lparr>mode = Broadcast, channelName = []\<rparr>,
                        fromConnection = src, fromNick = n, text = ''//'' @ rest\<rparr>) 1\<rparr>), s)"
    by (intro handleCommand_escaped) (simp add: beginsWith_def)
  then have "handleCommand \<lparr>context = \<lparr>mode = Broadcast, channelName = []\<rparr>,
                        fromConnection = src, fromNick = n, text = ''//'' @ rest\<rparr> s
               = Inr ((False, \<lparr>context = \<lparr>mode = Broadcast, channelName = []\<rparr>,
                        fromConnection = src, fromNick = n, text = ''/'' @ rest\<rparr>), s)"
    by (simp add: substr_def)
  with nick show "broadcast src (''//'' @ rest) s =
              Inr ((), s\<lparr>m_clients :=
                           appendAll \<lparr>context = \<lparr>mode = Broadcast, channelName = []\<rparr>,
                                      fromConnection = src, fromNick = n, text = ''/'' @ rest\<rparr>
                             (m_clients s)\<rparr>)"
    by (rule broadcast_not_consumed)
next
  fix msg c
  show "queueOf (s\<lparr>m_clients := appendAll msg (m_clients s)\<rparr>) c
                      = map_option (\<lambda>q. q @ [msg]) (queueOf s c)"
    by (rule queueOf_appendAll)
next
  fix msg
  show "map fst (appendAll msg (m_clients s)) = map fst (m_clients s)"
    by (rule keys_appendAll)
qed

theorem broadcast_delivers_to_all_witness:
  "map_of (m_clients aliceAndBob) 1 = Some alice
   \<and> \<not> beginsWith ''hello'' ''/''
   \<and> handleCommand (said ''hello'') aliceAndBob = Inr ((False, said ''hello''), aliceAndBob)
   \<and> queueOf (stateOf (broadcast 1 ''hello'' aliceAndBob)) 2
        = Some [\<lparr>context = \<lparr>mode = Broadcast, channelName = []\<rparr>,
                 fromConnection = 1, fromNick = ''Alice'', text = ''hello''\<rparr>]
   \<and> queueOf (stateOf (broadcast 1 ''//not-a-command'' aliceAndBob)) 1
        = Some [connectedNotice ''Bob'',
                \<lparr>context = \<lparr>mode = Broadcast, channelName = []\<rparr>,
                 fromConnection = 1, fromNick = ''Alice'', text = ''/not-a-command''\<rparr>]"
proof -
  have h: "(1::nat) = ServerConnectionId \<or> map_of (m_clients aliceAndBob) 1 = Some alice"
    using alice_connected by blast
  have n: "''Alice'' = (if (1::nat) = ServerConnectionId then ServerNick else nick alice)"
    by (simp add: ServerConnectionId_def alice_def)
  have p: "\<not> beginsWith ''hello'' ''/''" by (simp add: beginsWith_def)
  note t = broadcast_delivers_to_all [OF h n, of "''hello''" "''not-a-command''"]
  from t p have b1: "broadcast 1 ''hello'' aliceAndBob =
              Inr ((), aliceAndBob\<lparr>m_clients :=
                           appendAll \<lparr>context = \<lparr>mode = Broadcast, channelName = []\<rparr>,
                                      fromConnection = 1, fromNick = ''Alice'', text = ''hello''\<rparr>
                             (m_clients aliceAndBob)\<rparr>)" by blast
  from t have b2: "broadcast 1 (''//'' @ ''not-a-command'') aliceAndBob =
              Inr ((), aliceAndBob\<lparr>m_clients :=
                           appendAll \<lparr>context = \<lparr>mode = Broadcast, channelName = []\<rparr>,
                                      fromConnection = 1, fromNick = ''Alice'', text = ''/'' @ ''not-a-command''\<rparr>
                             (m_clients aliceAndBob)\<rparr>)" by blast
  have q1: "queueOf (stateOf (broadcast 1 ''hello'' aliceAndBob)) 2
        = Some [\<lparr>context = \<lparr>mode = Broadcast, channelName = []\<rparr>,
                 fromConnection = 1, fromNick = ''Alice'', text = ''hello''\<rparr>]"
    unfolding b1 by (simp add: aliceAndBob_eq queueOf_def appendAll_def appendPending_def)
  have q2: "queueOf (stateOf (broadcast 1 ''//not-a-command'' aliceAndBob)) 1
        = Some [connectedNotice ''Bob'',
                \<lparr>context = \<lparr>mode = Broadcast, channelName = []\<rparr>,
                 fromConnection = 1, fromNick = ''Alice'', text = ''/not-a-command''\<rparr>]"
    using b2 by (simp add: aliceAndBob_eq queueOf_def appendAll_def appendPending_def)
  have hc: "handleCommand \<lparr>context = \<lparr>mode = Broadcast, channelName = []\<rparr>,
                           fromConnection = 1, fromNick = ''Alice'', text = ''hello''\<rparr> aliceAndBob
              = Inr ((False, said ''hello''), aliceAndBob)"
    using p handleCommand_plain [of "said ''hello''" aliceAndBob] by (simp add: said_def)
  from broadcast_delivers_to_all [OF h n, of "''hello''" _ "said ''hello''" aliceAndBob] hc
  have "\<not> beginsWith ''hello'' ''/'' \<or> beginsWith ''hello'' ''//''" by blast
  have hs: "handleCommand (said ''hello'') aliceAndBob = Inr ((False, said ''hello''), aliceAndBob)"
    using hc by (simp add: said_def)
  show ?thesis using alice_connected p hs q1 q2 by blast
qed

section \<open>Connecting\<close>

text \<open>
  C7 (amended). For an identifier that is not connected, Connect returns the uniqueness
  resolution of the requested name, or of the default name made from the identifier when the
  requested name is empty; that name is not in the nickname index and is not the reserved
  one; the new session holds it with an empty queue, the index maps it to the identifier, and
  every other session's queue receives, at its end, the connected notice: a message of
  Broadcast context from the server identifier and the server nickname whose text names the
  assigned nickname.
\<close>

theorem connectClient_new_session:
  assumes "map_of (m_clients s) cid = None"
    and "n = makeNickUnique s (if requested = [] then ''Player_'' @ decimal cid else requested)"
  shows "valueOf (connectClient cid requested s) = Some n
       \<and> \<not> Map_contains (m_nicks s) n \<and> n \<noteq> ServerNick
       \<and> nickOf (stateOf (connectClient cid requested s)) cid = Some n
       \<and> queueOf (stateOf (connectClient cid requested s)) cid = Some []
       \<and> map_of (m_nicks (stateOf (connectClient cid requested s))) n = Some cid
       \<and> (\<forall>c. c \<noteq> cid \<longrightarrow>
             queueOf (stateOf (connectClient cid requested s)) c
               = map_option
                   (\<lambda>q. q @ [\<lparr>context = \<lparr>mode = Broadcast, channelName = []\<rparr>,
                         fromConnection = ServerConnectionId, fromNick = ServerNick,
                         text = ''Player '' @ [CHR 0x27] @ n @ [CHR 0x27] @ '' connected''\<rparr>])
                   (queueOf s c))"
proof (intro conjI impI allI)
  note r = connectClient_fresh [OF assms(1), of requested, folded assms(2)]
  show "valueOf (connectClient cid requested s) = Some n" by (simp add: r)
  show "\<not> Map_contains (m_nicks s) n" "n \<noteq> ServerNick"
    using makeNickUnique_fresh [of s] by (simp_all add: assms(2))
  have own: "map_of (appendAll (connectedNotice n) (m_clients s)) cid = None"
    using assms(1) by (simp add: map_of_appendAll)
  have cs: "m_clients (stateOf (connectClient cid requested s))
              = appendAll (connectedNotice n) (m_clients s)
                @ [(cid, \<lparr>clientId = cid, nick = n, pendingMessages = []\<rparr>)]"
    by (simp add: r)
  have new: "map_of (m_clients (stateOf (connectClient cid requested s))) cid
               = Some \<lparr>clientId = cid, nick = n, pendingMessages = []\<rparr>"
    unfolding cs using own by (rule map_of_snoc_same)
  show "nickOf (stateOf (connectClient cid requested s)) cid = Some n"
    by (simp add: nickOf_def new)
  show "queueOf (stateOf (connectClient cid requested s)) cid = Some []"
    by (simp add: queueOf_def new)
  show "map_of (m_nicks (stateOf (connectClient cid requested s))) n = Some cid"
    by (simp add: r update_conv')
next
  fix c
  assume "c \<noteq> cid"
  note r = connectClient_fresh [OF assms(1), of requested, folded assms(2)]
  have cs: "m_clients (stateOf (connectClient cid requested s))
              = appendAll (connectedNotice n) (m_clients s)
                @ [(cid, \<lparr>clientId = cid, nick = n, pendingMessages = []\<rparr>)]"
    by (simp add: r)
  have "map_of (m_clients (stateOf (connectClient cid requested s))) c
          = map_of (appendAll (connectedNotice n) (m_clients s)) c"
    unfolding cs using \<open>c \<noteq> cid\<close> by (rule map_of_snoc_other)
  then have "queueOf (stateOf (connectClient cid requested s)) c
               = queueOf (s\<lparr>m_clients := appendAll (connectedNotice n) (m_clients s)\<rparr>) c"
    by (simp add: queueOf_def)
  then have "queueOf (stateOf (connectClient cid requested s)) c
               = map_option (\<lambda>q. q @ [connectedNotice n]) (queueOf s c)"
    by (simp only: queueOf_appendAll)
  then show "queueOf (stateOf (connectClient cid requested s)) c
               = map_option
                   (\<lambda>q. q @ [\<lparr>context = \<lparr>mode = Broadcast, channelName = []\<rparr>,
                         fromConnection = ServerConnectionId, fromNick = ServerNick,
                         text = ''Player '' @ [CHR 0x27] @ n @ [CHR 0x27] @ '' connected''\<rparr>])
                   (queueOf s c)"
    by (simp only: connectedNotice_record)
qed

theorem connectClient_new_session_witness:
  "map_of (m_clients aliceAndBob) 3 = None
   \<and> valueOf (connectClient 3 ''Alice'' aliceAndBob) = Some ''Alice_''
   \<and> valueOf (connectClient 3 [] aliceAndBob) = Some ''Player_3''
   \<and> queueOf (stateOf (connectClient 3 ''Alice'' aliceAndBob)) 3 = Some []
   \<and> (2::nat) \<noteq> 3
   \<and> queueOf aliceAndBob 2 = Some []
   \<and> queueOf (stateOf (connectClient 3 ''Alice'' aliceAndBob)) 2
        = Some [\<lparr>context = \<lparr>mode = Broadcast, channelName = []\<rparr>,
                  fromConnection = 0, fromNick = ''server'',
                  text = ''Player '' @ [CHR 0x27] @ ''Alice_'' @ [CHR 0x27] @ '' connected''\<rparr>]"
proof -
  have h: "map_of (m_clients aliceAndBob) 3 = None" by (simp add: aliceAndBob_eq)
  have n1: "''Alice_'' = makeNickUnique aliceAndBob (if ''Alice'' = [] then ''Player_'' @ decimal 3 else ''Alice'')"
    by (simp add: aliceAndBob_eq makeNickUnique.simps Map_contains_def ServerNick_def)
  have n2: "''Player_3'' = makeNickUnique aliceAndBob (if [] = ([]::String) then ''Player_'' @ decimal 3 else [])"
    by (simp add: aliceAndBob_eq makeNickUnique.simps Map_contains_def ServerNick_def decimal.simps)
  have q: "queueOf aliceAndBob 2 = Some []" by (simp add: aliceAndBob_eq queueOf_def)
  have d: "(2::nat) \<noteq> 3" by simp
  note t1 = connectClient_new_session [OF h n1]
  note t2 = connectClient_new_session [OF h n2]
  from t1 have v1: "valueOf (connectClient 3 ''Alice'' aliceAndBob) = Some ''Alice_''" by blast
  from t2 have v2: "valueOf (connectClient 3 [] aliceAndBob) = Some ''Player_3''" by blast
  from t1 have o: "queueOf (stateOf (connectClient 3 ''Alice'' aliceAndBob)) 3 = Some []" by blast
  from t1 d have "queueOf (stateOf (connectClient 3 ''Alice'' aliceAndBob)) 2
        = map_option
            (\<lambda>q. q @ [\<lparr>context = \<lparr>mode = Broadcast, channelName = []\<rparr>,
                         fromConnection = ServerConnectionId, fromNick = ServerNick,
                         text = ''Player '' @ [CHR 0x27] @ ''Alice_'' @ [CHR 0x27] @ '' connected''\<rparr>])
            (queueOf aliceAndBob 2)"
    by blast
  then have r: "queueOf (stateOf (connectClient 3 ''Alice'' aliceAndBob)) 2
        = Some [\<lparr>context = \<lparr>mode = Broadcast, channelName = []\<rparr>,
                  fromConnection = 0, fromNick = ''server'',
                  text = ''Player '' @ [CHR 0x27] @ ''Alice_'' @ [CHR 0x27] @ '' connected''\<rparr>]"
    by (simp add: q ServerConnectionId_def ServerNick_def)
  show ?thesis using h v1 v2 o d q r by blast
qed

text \<open>
  C7 as stated fails for an identifier that is already connected: the connected notice is
  distributed, to the queue of the existing session with that identifier too, and adding the
  session then fails.
\<close>

theorem connectClient_rejects_connected_identifier:
  "valueOf (connectClient 1 ''Bob'' (stateOf (connectClient 1 ''Alice'' emptyProcessor))) = None
   \<and> connectClient 1 ''Bob'' (stateOf (connectClient 1 ''Alice'' emptyProcessor))
       = Inl (KeyAlreadyPresent,
              \<lparr>m_clients =
                 [(1, \<lparr>clientId = 1, nick = ''Alice'',
                      pendingMessages =
                        [\<lparr>context = \<lparr>mode = Broadcast, channelName = []\<rparr>,
                  fromConnection = 0, fromNick = ''server'',
                  text = ''Player '' @ [CHR 0x27] @ ''Bob'' @ [CHR 0x27] @ '' connected''\<rparr>]\<rparr>)],
               m_nicks = [(''Alice'', 1)], m_channels = [], m_commandHandler = None\<rparr>)"
  by (simp add: evals)

section \<open>The whisper command\<close>

text \<open>
  C3 (amended). For a connected issuer, a command whose name is w takes its target and text
  from the command line: in the quoted form the target is what stands between the opening
  quote and the next quote and the text is the trimmed rest; otherwise the target is the
  first token and the text the trimmed remainder. When the target is not in the nickname
  index, the only change is a no-such-nick CommandResult appended to the issuer's queue.
  When the target is in the index, its session is connected and the text does not begin with
  the prefix character, the command is consumed and one Whisper message with that text,
  stamped with the issuer, is appended to the target's queue, and to the issuer's queue
  unless the issuer is the server connection. Every route (broadcast, channel message,
  whisper) hands its message to the interpreter, so the statement is about the interpreter.
\<close>

theorem whisper_command:
  assumes "beginsWith (text m) ''/''" and "\<not> beginsWith (text m) ''//''"
    and "String_extract (substr (text m) 1) = (''w'', commandLine)"
    and "whisperArguments commandLine = (target, content)"
    and "map_of (m_clients s) (fromConnection m) = Some cx"
    and "w = whisperFrom (fromConnection m)
               (if fromConnection m = ServerConnectionId then ServerNick else nick cx) content"
  shows "(CHR 0x22 \<notin> set tgt \<longrightarrow>
            whisperArguments ([CHR 0x22] @ tgt @ [CHR 0x22] @ rest) = (tgt, trim rest))
       \<and> (tgt \<noteq> [] \<and> (\<forall>c \<in> set tgt. \<not> isSpace c) \<and> hd tgt \<noteq> CHR 0x22 \<and> isSpace sp \<longrightarrow>
            whisperArguments (tgt @ sp # rest) = (tgt, trim rest))
       \<and> (map_of (m_nicks s) target = None \<longrightarrow>
            handleCommand m s =
              Inr ((True, m),
                   s\<lparr>m_clients := AList.map_entry (fromConnection m)
                                    (appendPending (noSuchNick target)) (m_clients s)\<rparr>))
       \<and> (map_of (m_nicks s) target = Some y \<and> map_of (m_clients s) y = Some cy
            \<and> \<not> beginsWith content ''/'' \<longrightarrow>
            handleCommand m s =
              Inr ((True, m),
                   s\<lparr>m_clients :=
                        AList.map_entry y (appendPending w)
                          (if fromConnection m \<noteq> ServerConnectionId
                           then AList.map_entry (fromConnection m) (appendPending w) (m_clients s)
                           else m_clients s)\<rparr>)
            \<and> (y \<noteq> fromConnection m \<longrightarrow>
                 queueOf (stateOf (handleCommand m s)) y = Some (pendingMessages cy @ [w])
                 \<and> queueOf (stateOf (handleCommand m s)) (fromConnection m)
                     = Some (if fromConnection m \<noteq> ServerConnectionId
                             then pendingMessages cx @ [w] else pendingMessages cx)))"
proof (intro conjI impI)
  show "whisperArguments ([CHR 0x22] @ tgt @ [CHR 0x22] @ rest) = (tgt, trim rest)"
    if "CHR 0x22 \<notin> set tgt"
    using that by (rule whisperArguments_quoted)
  show "whisperArguments (tgt @ sp # rest) = (tgt, trim rest)"
    if "tgt \<noteq> [] \<and> (\<forall>c \<in> set tgt. \<not> isSpace c) \<and> hd tgt \<noteq> CHR 0x22 \<and> isSpace sp"
    using that by (intro whisperArguments_plain) simp_all
  show "handleCommand m s =
              Inr ((True, m),
                   s\<lparr>m_clients := AList.map_entry (fromConnection m)
                                    (appendPending (noSuchNick target)) (m_clients s)\<rparr>)"
    if "map_of (m_nicks s) target = None"
    using assms(1-4) that assms(5) by (rule handleCommand_w_unknown)
next
  assume a: "map_of (m_nicks s) target = Some y \<and> map_of (m_clients s) y = Some cy
            \<and> \<not> beginsWith content ''/''"
  let ?x = "fromConnection m"
  let ?n = "if ?x = ServerConnectionId then ServerNick else nick cx"
  let ?cs = "AList.map_entry y (appendPending w)
                          (if ?x \<noteq> ServerConnectionId
                           then AList.map_entry ?x (appendPending w) (m_clients s)
                           else m_clients s)"
  have n: "connectionNick s ?x = Inr ?n"
    using assms(5) by (simp add: connectionNick_server connectionNick_connected)
  from a have ny: "map_of (m_nicks s) target = Some y" by blast
  have wh: "whisper ?x y content s = Inr ((), s\<lparr>m_clients := ?cs\<rparr>)"
    unfolding assms(6) using n a assms(5)
    by (intro whisper_delivered [where cx = cx and cy = cy]) simp_all
  show r: "handleCommand m s = Inr ((True, m), s\<lparr>m_clients := ?cs\<rparr>)"
    by (rule handleCommand_w_known [OF assms(1-4) ny wh])
  {
    assume d: "y \<noteq> ?x"
    have y: "map_of ?cs y = Some (appendPending w cy)"
      using a d by (simp add: map_of_entry_same map_of_entry_other)
    show "queueOf (stateOf (handleCommand m s)) y = Some (pendingMessages cy @ [w])"
      by (simp add: r queueOf_def y appendPending_def)
    have x: "map_of ?cs ?x = Some (if ?x \<noteq> ServerConnectionId then appendPending w cx else cx)"
      using assms(5) d by (auto simp: map_of_entry_same map_of_entry_other)
    show "queueOf (stateOf (handleCommand m s)) ?x
            = Some (if ?x \<noteq> ServerConnectionId then pendingMessages cx @ [w] else pendingMessages cx)"
      by (simp add: r queueOf_def x appendPending_def)
  }
qed

theorem whisper_command_witness:
  "CHR 0x22 \<notin> set ''Bob Smith''
   \<and> whisperArguments ([CHR 0x22] @ ''Bob Smith'' @ [CHR 0x22] @ '' hi'') = (''Bob Smith'', ''hi'')
   \<and> (''Bob'' \<noteq> [] \<and> list_all (\<lambda>c. \<not> isSpace c) ''Bob'' \<and> hd ''Bob'' \<noteq> CHR 0x22
        \<and> isSpace CHR '' '')
   \<and> whisperArguments (''Bob'' @ CHR '' '' # ''hi there'') = (''Bob'', ''hi there'')
   \<and> map_of (m_nicks aliceAndBob) ''Carol'' = None
   \<and> queueOf (stateOf (handleCommand (said ''/w Carol hi'') aliceAndBob)) 1
        = Some [connectedNotice ''Bob'', noSuchNick ''Carol'']
   \<and> queueOf (stateOf (handleCommand (said ''/w Carol hi'') aliceAndBob)) 2 = Some []
   \<and> (map_of (m_nicks aliceAndBob) ''Bob'' = Some 2 \<and> map_of (m_clients aliceAndBob) 2 = Some bob
        \<and> \<not> beginsWith ''hi there'' ''/'')
   \<and> (2::nat) \<noteq> fromConnection (said ''/w Bob hi there'')
   \<and> queueOf (stateOf (handleCommand (said ''/w Bob hi there'') aliceAndBob)) 2
        = Some [whisperFrom 1 ''Alice'' ''hi there'']
   \<and> queueOf (stateOf (handleCommand (said ''/w Bob hi there'') aliceAndBob)) 1
        = Some [connectedNotice ''Bob'', whisperFrom 1 ''Alice'' ''hi there'']"
proof -
  have q: "CHR 0x22 \<notin> set ''Bob Smith''" by simp
  have tr1: "trim '' hi'' = ''hi''" by (simp add: trim_def isSpace_def)
  have tr2: "trim ''hi there'' = ''hi there''" by (simp add: trim_def isSpace_def)
  have tk: "''Bob'' \<noteq> [] \<and> (\<forall>c \<in> set ''Bob''. \<not> isSpace c) \<and> hd ''Bob'' \<noteq> CHR 0x22 \<and> isSpace CHR '' ''"
    by (simp add: isSpace_def)
  have b1: "beginsWith (text (said ''/w Carol hi'')) ''/''"
    and b2: "\<not> beginsWith (text (said ''/w Carol hi'')) ''//''"
    and e1: "String_extract (substr (text (said ''/w Carol hi'')) 1) = (''w'', ''Carol hi'')"
    and a1: "whisperArguments ''Carol hi'' = (''Carol'', ''hi'')"
    by (simp_all add: said_def beginsWith_def substr_def String_extract_def isSpace_def
          whisperArguments_def trim_def)
  have c1: "map_of (m_clients aliceAndBob) (fromConnection (said ''/w Carol hi'')) = Some alice"
    using alice_connected by (simp add: said_def)
  have w1: "whisperFrom 1 ''Alice'' ''hi'' = whisperFrom (fromConnection (said ''/w Carol hi''))
               (if fromConnection (said ''/w Carol hi'') = ServerConnectionId then ServerNick else nick alice) ''hi''"
    by (simp add: said_def ServerConnectionId_def alice_def)
  note t1 = whisper_command [OF b1 b2 e1 a1 c1 w1]
  have u: "map_of (m_nicks aliceAndBob) ''Carol'' = None" by (simp add: aliceAndBob_eq)
  from t1 [where tgt = "''Bob Smith''" and rest = "'' hi''"] q
  have "whisperArguments ([CHR 0x22] @ ''Bob Smith'' @ [CHR 0x22] @ '' hi'')
          = (''Bob Smith'', trim '' hi'')"
    by blast
  then have p1: "whisperArguments ([CHR 0x22] @ ''Bob Smith'' @ [CHR 0x22] @ '' hi'')
                   = (''Bob Smith'', ''hi'')"
    by (simp only: tr1)
  from t1 [where tgt = "''Bob''" and sp = "CHR '' ''" and rest = "''hi there''"] tk
  have "whisperArguments (''Bob'' @ CHR '' '' # ''hi there'') = (''Bob'', trim ''hi there'')"
    by blast
  then have p2: "whisperArguments (''Bob'' @ CHR '' '' # ''hi there'') = (''Bob'', ''hi there'')"
    by (simp only: tr2)
  from t1 u have r1: "handleCommand (said ''/w Carol hi'') aliceAndBob =
              Inr ((True, said ''/w Carol hi''),
                   aliceAndBob\<lparr>m_clients := AList.map_entry (fromConnection (said ''/w Carol hi''))
                                    (appendPending (noSuchNick ''Carol'')) (m_clients aliceAndBob)\<rparr>)"
    by blast
  have n1: "queueOf (stateOf (handleCommand (said ''/w Carol hi'') aliceAndBob)) 1
        = Some [connectedNotice ''Bob'', noSuchNick ''Carol'']"
    and n2: "queueOf (stateOf (handleCommand (said ''/w Carol hi'') aliceAndBob)) 2 = Some []"
    unfolding r1 by (simp_all add: aliceAndBob_eq queueOf_def said_def appendPending_def)
  have b3: "beginsWith (text (said ''/w Bob hi there'')) ''/''"
    and b4: "\<not> beginsWith (text (said ''/w Bob hi there'')) ''//''"
    and e2: "String_extract (substr (text (said ''/w Bob hi there'')) 1) = (''w'', ''Bob hi there'')"
    and a2: "whisperArguments ''Bob hi there'' = (''Bob'', ''hi there'')"
    by (simp_all add: said_def beginsWith_def substr_def String_extract_def isSpace_def
          whisperArguments_def trim_def)
  have c2: "map_of (m_clients aliceAndBob) (fromConnection (said ''/w Bob hi there'')) = Some alice"
    using alice_connected by (simp add: said_def)
  have w2: "whisperFrom 1 ''Alice'' ''hi there'' = whisperFrom (fromConnection (said ''/w Bob hi there''))
               (if fromConnection (said ''/w Bob hi there'') = ServerConnectionId then ServerNick else nick alice) ''hi there''"
    by (simp add: said_def ServerConnectionId_def alice_def)
  note t2 = whisper_command [OF b3 b4 e2 a2 c2 w2, where y = 2 and cy = bob]
  have k: "map_of (m_nicks aliceAndBob) ''Bob'' = Some 2 \<and> map_of (m_clients aliceAndBob) 2 = Some bob
        \<and> \<not> beginsWith ''hi there'' ''/''"
    by (simp add: aliceAndBob_eq bob_def beginsWith_def)
  have d: "(2::nat) \<noteq> fromConnection (said ''/w Bob hi there'')" by (simp add: said_def)
  from t2 k d have "queueOf (stateOf (handleCommand (said ''/w Bob hi there'') aliceAndBob)) 2
                 = Some (pendingMessages bob @ [whisperFrom 1 ''Alice'' ''hi there''])"
    by blast
  then have g1: "queueOf (stateOf (handleCommand (said ''/w Bob hi there'') aliceAndBob)) 2
        = Some [whisperFrom 1 ''Alice'' ''hi there'']"
    by (simp add: bob_def)
  from t2 k d have "queueOf (stateOf (handleCommand (said ''/w Bob hi there'') aliceAndBob))
                      (fromConnection (said ''/w Bob hi there''))
                 = Some (if fromConnection (said ''/w Bob hi there'') \<noteq> ServerConnectionId
                         then pendingMessages alice @ [whisperFrom 1 ''Alice'' ''hi there'']
                         else pendingMessages alice)"
    by blast
  then have g2: "queueOf (stateOf (handleCommand (said ''/w Bob hi there'') aliceAndBob)) 1
        = Some [connectedNotice ''Bob'', whisperFrom 1 ''Alice'' ''hi there'']"
    by (simp add: said_def alice_def ServerConnectionId_def)
  have tl: "''Bob'' \<noteq> [] \<and> list_all (\<lambda>c. \<not> isSpace c) ''Bob'' \<and> hd ''Bob'' \<noteq> CHR 0x22
              \<and> isSpace CHR '' ''"
    by (simp add: isSpace_def)
  show ?thesis using q p1 tl p2 u n1 n2 k d g1 g2 by blast
qed

text \<open>
  C3 as stated fails when the whispered text itself begins with the prefix character:
  Whisper runs it through the command interpreter again, so a text that is a command is
  executed for the issuer and nothing reaches the target, and a text with a doubled prefix
  reaches the target with one prefix character less.
\<close>

theorem whisper_text_reinterpreted:
  "String_extract (substr ''/w Bob /nick Eve'' 1) = (''w'', ''Bob /nick Eve'')
   \<and> whisperArguments ''Bob /nick Eve'' = (''Bob'', ''/nick Eve'')
   \<and> map_of (m_nicks aliceAndBob) ''Bob'' = Some 2
   \<and> queueOf aliceAndBob 2 = Some []
   \<and> valueOf (broadcast 1 ''/w Bob /nick Eve'' aliceAndBob) = Some ()
   \<and> queueOf (stateOf (broadcast 1 ''/w Bob /nick Eve'' aliceAndBob)) 2 = Some []
   \<and> nickOf (stateOf (broadcast 1 ''/w Bob /nick Eve'' aliceAndBob)) 1 = Some ''Eve''
   \<and> whisperArguments ''Bob //hi'' = (''Bob'', ''//hi'')
   \<and> queueOf (stateOf (broadcast 1 ''/w Bob //hi'' aliceAndBob)) 2
        = Some [whisperFrom 1 ''Alice'' ''/hi'']"
  by (simp add: aliceAndBob_eq evals whisperFrom_def)

section \<open>Channel records\<close>




section \<open>Disconnecting\<close>

text \<open>
  C5. For a connected identifier, in a processor whose channel table has one record per
  name (as every processor reached from the empty one has, \<open>reachable_distinct\<close>),
  Disconnect returns exactly the pending queue of the session; afterwards the
  identifier is a member of no channel (every member set is the former one without it), the
  active channels are those that had another member, the session and the index entry of its
  nickname are gone, and the queue of every remaining session has the disconnected notice
  appended: a message of Broadcast context from the server identifier and the server
  nickname whose text names the nickname of the disconnected session.
\<close>

theorem disconnectClient_connected:
  assumes "map_of (m_clients s) cid = Some ci" and "distinct (map fst (m_channels s))"
  shows "valueOf (disconnectClient cid s) = Some (pendingMessages ci)
       \<and> clientChannels (stateOf (disconnectClient cid s)) cid = []
       \<and> (\<forall>ch. map_of (m_channels (stateOf (disconnectClient cid s))) ch
                  = map_option (removeAll cid) (map_of (m_channels s) ch))
       \<and> activeChannels (stateOf (disconnectClient cid s))
            = map fst (filter (\<lambda>p. \<not> set (snd p) \<subseteq> {cid}) (m_channels s))
       \<and> map_of (m_clients (stateOf (disconnectClient cid s))) cid = None
       \<and> map_of (m_nicks (stateOf (disconnectClient cid s))) (nick ci) = None
       \<and> (\<forall>c. c \<noteq> cid \<longrightarrow>
             queueOf (stateOf (disconnectClient cid s)) c
               = map_option
                   (\<lambda>q. q @ [\<lparr>context = \<lparr>mode = Broadcast, channelName = []\<rparr>,
                         fromConnection = ServerConnectionId, fromNick = ServerNick,
                         text = ''Player '' @ [CHR 0x27] @ nick ci @ [CHR 0x27] @ '' disconnected''\<rparr>])
                   (queueOf s c))"
proof (intro conjI allI impI)
  note r = disconnectClient_present [OF assms]
  show "valueOf (disconnectClient cid s) = Some (pendingMessages ci)" by (simp add: r)
  have ch: "m_channels (stateOf (disconnectClient cid s)) = withoutMember cid (m_channels s)"
    by (simp add: r)
  show "clientChannels (stateOf (disconnectClient cid s)) cid = []"
    using ch by (rule clientChannels_withoutMember)
  show "activeChannels (stateOf (disconnectClient cid s))
            = map fst (filter (\<lambda>p. \<not> set (snd p) \<subseteq> {cid}) (m_channels s))"
    using ch by (rule activeChannels_withoutMember)
  show "map_of (m_clients (stateOf (disconnectClient cid s))) cid = None"
    by (simp add: r map_of_appendAll delete_conv)
  show "map_of (m_nicks (stateOf (disconnectClient cid s))) (nick ci) = None"
    by (simp add: r delete_conv)
  fix ch'
  show "map_of (m_channels (stateOf (disconnectClient cid s))) ch'
                  = map_option (removeAll cid) (map_of (m_channels s) ch')"
    by (simp only: ch map_of_withoutMember)
next
  fix c
  assume n: "c \<noteq> cid"
  note r = disconnectClient_present [OF assms]
  have "map_of (m_clients (stateOf (disconnectClient cid s))) c
          = map_option (appendPending (disconnectedNotice (nick ci))) (map_of (m_clients s) c)"
    using n by (simp add: r map_of_appendAll delete_conv)
  then have "queueOf (stateOf (disconnectClient cid s)) c
               = map_option (\<lambda>q. q @ [disconnectedNotice (nick ci)]) (queueOf s c)"
    by (cases "map_of (m_clients s) c") (simp_all add: queueOf_def appendPending_def)
  then show "queueOf (stateOf (disconnectClient cid s)) c
               = map_option
                   (\<lambda>q. q @ [\<lparr>context = \<lparr>mode = Broadcast, channelName = []\<rparr>,
                         fromConnection = ServerConnectionId, fromNick = ServerNick,
                         text = ''Player '' @ [CHR 0x27] @ nick ci @ [CHR 0x27] @ '' disconnected''\<rparr>])
                   (queueOf s c)"
    by (simp only: disconnectedNotice_record)
qed

theorem disconnectClient_connected_witness:
  "map_of (m_clients inChannels) 1 = Some alice
   \<and> distinct (map fst (m_channels inChannels))
   \<and> clientChannels inChannels 1 = [''solo'', ''lobby'']
   \<and> valueOf (disconnectClient 1 inChannels)
        = Some [\<lparr>context = \<lparr>mode = Broadcast, channelName = []\<rparr>,
                  fromConnection = 0, fromNick = ''server'',
                  text = ''Player '' @ [CHR 0x27] @ ''Bob'' @ [CHR 0x27] @ '' connected''\<rparr>]
   \<and> clientChannels (stateOf (disconnectClient 1 inChannels)) 1 = []
   \<and> activeChannels (stateOf (disconnectClient 1 inChannels)) = [''lobby'']
   \<and> map_of (m_clients (stateOf (disconnectClient 1 inChannels))) 1 = None
   \<and> map_of (m_nicks (stateOf (disconnectClient 1 inChannels))) ''Alice'' = None
   \<and> (2::nat) \<noteq> 1
   \<and> queueOf inChannels 2 = Some []
   \<and> queueOf (stateOf (disconnectClient 1 inChannels)) 2
        = Some [\<lparr>context = \<lparr>mode = Broadcast, channelName = []\<rparr>,
                  fromConnection = 0, fromNick = ''server'',
                  text = ''Player '' @ [CHR 0x27] @ ''Alice'' @ [CHR 0x27] @ '' disconnected''\<rparr>]"
proof -
  note t = disconnectClient_connected [OF alice_inChannels distinct_inChannels]
  have d: "(2::nat) \<noteq> 1" by simp
  have cc: "clientChannels inChannels 1 = [''solo'', ''lobby'']"
    by (simp add: inChannels_eq clientChannels_def)
  from t have "valueOf (disconnectClient 1 inChannels) = Some (pendingMessages alice)" by blast
  then have v: "valueOf (disconnectClient 1 inChannels)
        = Some [\<lparr>context = \<lparr>mode = Broadcast, channelName = []\<rparr>,
                  fromConnection = 0, fromNick = ''server'',
                  text = ''Player '' @ [CHR 0x27] @ ''Bob'' @ [CHR 0x27] @ '' connected''\<rparr>]"
    by (simp add: alice_def connectedNotice_literal)
  from t have c: "clientChannels (stateOf (disconnectClient 1 inChannels)) 1 = []" by blast
  from t have "activeChannels (stateOf (disconnectClient 1 inChannels))
            = map fst (filter (\<lambda>p. \<not> set (snd p) \<subseteq> {1}) (m_channels inChannels))" by blast
  then have a: "activeChannels (stateOf (disconnectClient 1 inChannels)) = [''lobby'']"
    by (simp add: inChannels_eq)
  from t have g: "map_of (m_clients (stateOf (disconnectClient 1 inChannels))) 1 = None" by blast
  from t have "map_of (m_nicks (stateOf (disconnectClient 1 inChannels))) (nick alice) = None"
    by blast
  then have n: "map_of (m_nicks (stateOf (disconnectClient 1 inChannels))) ''Alice'' = None"
    by (simp add: alice_def)
  have q0: "queueOf inChannels 2 = Some []"
    by (simp add: inChannels_eq aliceAndBob_eq queueOf_def)
  from t d have "queueOf (stateOf (disconnectClient 1 inChannels)) 2
               = map_option
                   (\<lambda>q. q @ [\<lparr>context = \<lparr>mode = Broadcast, channelName = []\<rparr>,
                         fromConnection = ServerConnectionId, fromNick = ServerNick,
                         text = ''Player '' @ [CHR 0x27] @ nick alice @ [CHR 0x27] @ '' disconnected''\<rparr>])
                   (queueOf inChannels 2)"
    by blast
  then have q: "queueOf (stateOf (disconnectClient 1 inChannels)) 2
        = Some [\<lparr>context = \<lparr>mode = Broadcast, channelName = []\<rparr>,
                  fromConnection = 0, fromNick = ''server'',
                  text = ''Player '' @ [CHR 0x27] @ ''Alice'' @ [CHR 0x27] @ '' disconnected''\<rparr>]"
    by (simp add: q0 alice_def ServerConnectionId_def ServerNick_def)
  show ?thesis using alice_inChannels distinct_inChannels cc v c a g n d q0 q by blast
qed

text \<open>
  C8 (amended). Disconnect of an identifier that is not connected is not a no-op: it fails
  with the key-not-found error of the session table and returns no message sequence. The
  sessions and the nickname index are as before, and the whole processor is unchanged when
  the identifier is a member of no channel; in particular a second Disconnect, right after
  the first, fails and leaves the processor as the first Disconnect left it.
\<close>

theorem disconnectClient_not_connected:
  "(map_of (m_clients s) cid = None \<longrightarrow>
      valueOf (disconnectClient cid s) = None
      \<and> disconnectClient cid s = Inl (KeyNotFound, leaveChannels cid (clientChannels s cid) s)
      \<and> m_clients (stateOf (disconnectClient cid s)) = m_clients s
      \<and> m_nicks (stateOf (disconnectClient cid s)) = m_nicks s
      \<and> (clientChannels s cid = [] \<longrightarrow> disconnectClient cid s = Inl (KeyNotFound, s)))
   \<and> (map_of (m_clients s) cid = Some ci \<and> distinct (map fst (m_channels s)) \<longrightarrow>
         disconnectClient cid (stateOf (disconnectClient cid s))
           = Inl (KeyNotFound, stateOf (disconnectClient cid s)))"
proof (intro conjI impI)
  assume a: "map_of (m_clients s) cid = None"
  show r: "disconnectClient cid s = Inl (KeyNotFound, leaveChannels cid (clientChannels s cid) s)"
    using a by (rule disconnectClient_absent)
  show "valueOf (disconnectClient cid s) = None" by (simp add: r)
  show "m_clients (stateOf (disconnectClient cid s)) = m_clients s"
    by (simp add: r leaveChannels_keeps_sessions)
  show "m_nicks (stateOf (disconnectClient cid s)) = m_nicks s"
    by (simp add: r leaveChannels_keeps_sessions)
  show "disconnectClient cid s = Inl (KeyNotFound, s)" if "clientChannels s cid = []"
    using that by (simp add: r leaveChannels_def)
next
  assume a: "map_of (m_clients s) cid = Some ci \<and> distinct (map fst (m_channels s))"
  let ?s1 = "stateOf (disconnectClient cid s)"
  from a have gone: "map_of (m_clients ?s1) cid = None"
    and none: "clientChannels ?s1 cid = []"
    using disconnectClient_after [of s cid ci] by blast+
  have "disconnectClient cid ?s1 = Inl (KeyNotFound, leaveChannels cid (clientChannels ?s1 cid) ?s1)"
    using gone by (rule disconnectClient_absent)
  then show "disconnectClient cid ?s1 = Inl (KeyNotFound, ?s1)"
    by (simp add: none leaveChannels_def)
qed

theorem disconnectClient_not_connected_witness:
  "map_of (m_clients aliceAndBob) 3 = None
   \<and> clientChannels aliceAndBob 3 = []
   \<and> disconnectClient 3 aliceAndBob = Inl (KeyNotFound, aliceAndBob)
   \<and> map_of (m_clients inChannels) 1 = Some alice
   \<and> distinct (map fst (m_channels inChannels))
   \<and> disconnectClient 1 (stateOf (disconnectClient 1 inChannels))
        = Inl (KeyNotFound, stateOf (disconnectClient 1 inChannels))"
proof -
  have h: "map_of (m_clients aliceAndBob) 3 = None" by (simp add: aliceAndBob_eq)
  have e: "clientChannels aliceAndBob 3 = []" by (simp add: aliceAndBob_eq clientChannels_def)
  from disconnectClient_not_connected [of aliceAndBob 3] h e
  have a: "disconnectClient 3 aliceAndBob = Inl (KeyNotFound, aliceAndBob)" by blast
  from disconnectClient_not_connected [of inChannels 1 alice] alice_inChannels distinct_inChannels
  have b: "disconnectClient 1 (stateOf (disconnectClient 1 inChannels))
        = Inl (KeyNotFound, stateOf (disconnectClient 1 inChannels))"
    by blast
  show ?thesis using h e a alice_inChannels distinct_inChannels b by blast
qed

text \<open>
  C8 as stated fails: the second Disconnect of session 1 throws and returns nothing.
\<close>

theorem disconnectClient_twice_fails:
  "valueOf (disconnectClient 1 (stateOf (disconnectClient 1 aliceAndBob))) = None
   \<and> disconnectClient 1 (stateOf (disconnectClient 1 aliceAndBob))
        = Inl (KeyNotFound,
               \<lparr>m_clients = [(2, \<lparr>clientId = 2, nick = ''Bob'',
                                  pendingMessages = [disconnectedNotice ''Alice'']\<rparr>)],
                m_nicks = [(''Bob'', 2)], m_channels = [], m_commandHandler = None\<rparr>)"
  by (simp add: aliceAndBob_eq evals)

section \<open>Draining a queue\<close>

text \<open>
  C9. For a connected identifier, DrainQueue returns the pending messages in the order in
  which they were appended and leaves that queue empty and every other session as it was;
  for an identifier that is not connected it returns the empty sequence and leaves the
  processor unchanged.
\<close>

theorem pullPendingMessages_drains:
  "(map_of (m_clients s) cid = Some ci \<longrightarrow>
      pullPendingMessages cid s =
        Inr (pendingMessages ci,
             s\<lparr>m_clients := AList.map_entry cid (\<lambda>c. c\<lparr>pendingMessages := []\<rparr>) (m_clients s)\<rparr>)
      \<and> queueOf (stateOf (pullPendingMessages cid s)) cid = Some []
      \<and> (\<forall>c. c \<noteq> cid \<longrightarrow>
            map_of (m_clients (stateOf (pullPendingMessages cid s))) c = map_of (m_clients s) c)
      \<and> valueOf (pullPendingMessages cid (stateOf (appendTo cid m2 (stateOf (appendTo cid m1 s)))))
          = Some (pendingMessages ci @ [m1, m2]))
   \<and> (map_of (m_clients s) cid = None \<longrightarrow> pullPendingMessages cid s = Inr ([], s))"
proof (intro conjI impI allI)
  assume c: "map_of (m_clients s) cid = Some ci"
  show p: "pullPendingMessages cid s =
        Inr (pendingMessages ci,
             s\<lparr>m_clients := AList.map_entry cid (\<lambda>c. c\<lparr>pendingMessages := []\<rparr>) (m_clients s)\<rparr>)"
    using c by (rule pull_connected)
  show "queueOf (stateOf (pullPendingMessages cid s)) cid = Some []"
    using c by (simp add: p queueOf_def map_of_entry_same)
  let ?s1 = "s\<lparr>m_clients := AList.map_entry cid (appendPending m1) (m_clients s)\<rparr>"
  let ?s2 = "?s1\<lparr>m_clients := AList.map_entry cid (appendPending m2) (m_clients ?s1)\<rparr>"
  have a1: "appendTo cid m1 s = Inr ((), ?s1)" using c by (rule appendTo_connected)
  have c1: "map_of (m_clients ?s1) cid = Some (appendPending m1 ci)"
    using c by (simp add: map_of_entry_same)
  have a2: "appendTo cid m2 ?s1 = Inr ((), ?s2)" using c1 by (rule appendTo_connected)
  have c2: "map_of (m_clients ?s2) cid = Some (appendPending m2 (appendPending m1 ci))"
    using c1 by (simp add: map_of_entry_same)
  show "valueOf (pullPendingMessages cid (stateOf (appendTo cid m2 (stateOf (appendTo cid m1 s)))))
          = Some (pendingMessages ci @ [m1, m2])"
    unfolding a1 stateOf_Inr a2 pull_connected [OF c2] valueOf_Inr
    by (simp add: appendPending_def)
next
  fix c
  assume c: "map_of (m_clients s) cid = Some ci" and n: "c \<noteq> cid"
  show "map_of (m_clients (stateOf (pullPendingMessages cid s))) c = map_of (m_clients s) c"
    using n by (simp add: pull_connected [OF c] map_of_entry_other)
next
  assume "map_of (m_clients s) cid = None"
  then show "pullPendingMessages cid s = Inr ([], s)" by (rule pull_absent)
qed

theorem pullPendingMessages_drains_witness:
  "map_of (m_clients aliceAndBob) 1 = Some alice
   \<and> valueOf (pullPendingMessages 1 aliceAndBob) = Some [connectedNotice ''Bob'']
   \<and> queueOf (stateOf (pullPendingMessages 1 aliceAndBob)) 1 = Some []
   \<and> (2::nat) \<noteq> 1
   \<and> map_of (m_clients (stateOf (pullPendingMessages 1 aliceAndBob))) 2
        = map_of (m_clients aliceAndBob) 2
   \<and> map_of (m_clients aliceAndBob) 3 = None
   \<and> pullPendingMessages 3 aliceAndBob = Inr ([], aliceAndBob)"
proof -
  have h: "map_of (m_clients aliceAndBob) 3 = None" by (simp add: aliceAndBob_eq)
  have d: "(2::nat) \<noteq> 1" by simp
  note t = pullPendingMessages_drains [of aliceAndBob 1 alice]
  from t alice_connected have "valueOf (pullPendingMessages 1 aliceAndBob) = Some (pendingMessages alice)"
    by (simp only: valueOf_Inr)
  then have v: "valueOf (pullPendingMessages 1 aliceAndBob) = Some [connectedNotice ''Bob'']"
    by (simp add: alice_def)
  from t alice_connected have q: "queueOf (stateOf (pullPendingMessages 1 aliceAndBob)) 1 = Some []"
    by blast
  from t alice_connected d
  have o: "map_of (m_clients (stateOf (pullPendingMessages 1 aliceAndBob))) 2
             = map_of (m_clients aliceAndBob) 2"
    by blast
  from pullPendingMessages_drains [of aliceAndBob 3] h
  have a: "pullPendingMessages 3 aliceAndBob = Inr ([], aliceAndBob)" by blast
  show ?thesis using alice_connected v q d o h a by blast
qed

section \<open>Renaming to the empty name\<close>

text \<open>
  C10. Rename with the empty name makes no default name from the identifier, as Connect
  does: the empty name is a candidate like any other. But the stored and the returned name
  are not the processed candidate when the empty nickname is taken: after session 1 was
  renamed to the empty name, renaming session 2 to the empty name returns and stores the
  empty name, in the session and in the index, although the uniqueness resolution of the
  empty name in that state yields the suffixed name; two sessions then hold the empty
  nickname.
\<close>

theorem renick_empty_name_not_resolved:
  "nickOf emptyTaken 1 = Some []
   \<and> nickOf emptyTaken 2 = Some ''Bob''
   \<and> map_of (m_nicks emptyTaken) [] = Some 1
   \<and> valueOf (renick 2 [] emptyTaken) = Some []
   \<and> nickOf (stateOf (renick 2 [] emptyTaken)) 2 = Some []
   \<and> nickOf (stateOf (renick 2 [] emptyTaken)) 1 = Some []
   \<and> map_of (m_nicks (stateOf (renick 2 [] emptyTaken))) [] = Some 2
   \<and> makeNickUnique (emptyTaken\<lparr>m_nicks := snd (Map_remove ''Bob'' (m_nicks emptyTaken))\<rparr>) []
        = ''_''
   \<and> \<not> nicknamesUnique (stateOf (renick 2 [] emptyTaken))
   \<and> valueOf (connectClient 3 [] emptyTaken) = Some ''Player_3''"
  by (simp add: emptyTaken_def aliceAndBob_eq evals decimal.simps)

end
